theory Spec2Isabelle
  imports Main "HOL-Library.Word" "HOL-Library.Multiset" "HOL-Library.Product_Lexorder"
begin

section \<open>Data model\<close>

text \<open>
  The reconciler of \<^verbatim>\<open>pkg/loadbalancer/experimental/bpf_reconciler.go\<close>.
  \<^verbatim>\<open>loadbalancer.ID\<close> and \<^verbatim>\<open>loadbalancer.BackendID\<close> are Go \<^verbatim>\<open>uint32\<close>: 32-bit words whose
  \<open>+ 1\<close> wraps around. \<^verbatim>\<open>statedb.Revision\<close> is \<^verbatim>\<open>uint64\<close>.
\<close>

type_synonym ID = "32 word"
type_synonym BackendID = "32 word"
type_synonym Revision = "64 word"

text \<open>
  \<^verbatim>\<open>netip.Addr\<close>: the zero address, an IPv4 address or an IPv6 address (zones are
  not modelled). \<^verbatim>\<open>Is6\<close> holds of IPv6 addresses only; \<^verbatim>\<open>BitLen\<close> is 0, 32 or 128.
\<close>

datatype netip_Addr = AddrZero | Addr4 "32 word" | Addr6 "128 word"

fun Is6 :: "netip_Addr \<Rightarrow> bool" where
  "Is6 (Addr6 _) = True"
| "Is6 _ = False"

fun BitLen :: "netip_Addr \<Rightarrow> nat" where
  "BitLen AddrZero = 0"
| "BitLen (Addr4 _) = 32"
| "BitLen (Addr6 _) = 128"

fun addr_bits :: "netip_Addr \<Rightarrow> nat" where
  "addr_bits AddrZero = 0"
| "addr_bits (Addr4 w) = unat w"
| "addr_bits (Addr6 w) = unat w"

text \<open>
  \<^verbatim>\<open>netip.Addr.Compare\<close>: first by bit length, then by the address bits;
  the result is -1, 0 or 1.
\<close>

definition Compare :: "netip_Addr \<Rightarrow> netip_Addr \<Rightarrow> int" where
  "Compare ip ip2 =
     (if BitLen ip < BitLen ip2 then - 1
      else if BitLen ip > BitLen ip2 then 1
      else if addr_bits ip < addr_bits ip2 then - 1
      else if addr_bits ip > addr_bits ip2 then 1
      else 0)"

text \<open>\<^verbatim>\<open>cmtypes.AddrCluster\<close>: an address and a cluster id.\<close>

record AddrCluster =
  ac_addr :: netip_Addr
  ac_clusterID :: "32 word"

definition AddrClusterFrom :: "netip_Addr \<Rightarrow> 32 word \<Rightarrow> AddrCluster" where
  "AddrClusterFrom a c = \<lparr>ac_addr = a, ac_clusterID = c\<rparr>"

text \<open>
  \<^verbatim>\<open>loadbalancer.L3n4Addr\<close>: the embedded \<^verbatim>\<open>L4Addr{Protocol, Port}\<close> is flattened into
  the record, as Go's field promotion lets the source write \<^verbatim>\<open>a.Port\<close>.
\<close>

record L3n4Addr =
  AddrCluster :: AddrCluster
  Protocol :: string
  Port :: "16 word"
  Scope :: "8 word"

definition IsIPv6 :: "L3n4Addr \<Rightarrow> bool" where
  "IsIPv6 a = Is6 (ac_addr (AddrCluster a))"

definition IsUnspecified :: "AddrCluster \<Rightarrow> bool" where
  "IsUnspecified ac = (ac_addr ac = Addr4 0 \<or> ac_addr ac = Addr6 0)"

text \<open>\<^verbatim>\<open>loadbalancer.TCP\<close>\<close>

definition TCP :: string where
  "TCP = ''TCP''"

record L3n4AddrID =
  id_L3n4Addr :: L3n4Addr
  id_ID :: ID

section \<open>Errors\<close>

text \<open>
  Every \<^verbatim>\<open>fmt.Errorf\<close> of the source is a constructor; \<^verbatim>\<open>%w\<close> wrapping is \<open>Wrapped\<close>;
  an error coming from the table driver carries its errno (\<open>DriverError\<close>);
  \<^verbatim>\<open>errors.Join\<close> of the non-nil errors is \<open>Joined\<close>.
\<close>

datatype error =
    ErrNoIDAvailable
  | ErrAlreadyRegistered ID L3n4AddrID
  | ErrIDNotFound
  | ErrInvalidRevNat
  | ErrServiceMapFull
  | DriverError nat
  | Wrapped string error
  | Joined "error list"

section \<open>Identifier allocator\<close>

record idAllocator =
  entitiesID :: "ID \<rightharpoonup> L3n4AddrID"
  entities :: "string \<rightharpoonup> ID"
  nextID :: ID
  maxID :: ID
  initNextID :: ID
  initMaxID :: ID

definition newIDAllocator :: "ID \<Rightarrow> ID \<Rightarrow> idAllocator" where
  "newIDAllocator nxt mx =
     \<lparr>entitiesID = Map.empty, entities = Map.empty, nextID = nxt, maxID = mx,
      initNextID = nxt, initMaxID = mx\<rparr>"

definition newID :: "L3n4Addr \<Rightarrow> ID \<Rightarrow> L3n4AddrID" where
  "newID svc i = \<lparr>id_L3n4Addr = svc, id_ID = i\<rparr>"

text \<open>
  \<^verbatim>\<open>L3n4Addr.StringID\<close> lives in \<^verbatim>\<open>pkg/loadbalancer\<close>, outside the files at hand: it is
  the parameter \<open>sid\<close> of every allocator operation.
\<close>

definition addID :: "(L3n4Addr \<Rightarrow> string) \<Rightarrow> idAllocator \<Rightarrow> L3n4Addr \<Rightarrow> ID \<Rightarrow> idAllocator \<times> ID" where
  "addID sid alloc svc i =
     (alloc\<lparr>entitiesID := (entitiesID alloc)(i \<mapsto> newID svc i),
            entities := (entities alloc)(sid svc \<mapsto> i)\<rparr>, i)"

text \<open>
  The \<^verbatim>\<open>for\<close> loop of \<^verbatim>\<open>acquireLocalID\<close>. The loop need not terminate (it spins when
  it starts at \<open>initNextID\<close> with every slot below \<open>maxID\<close> taken), so it is a partial
  function: \<open>None\<close> is "does not return".
\<close>

partial_function (option) scanID ::
  "(L3n4Addr \<Rightarrow> string) \<Rightarrow> idAllocator \<Rightarrow> L3n4Addr \<Rightarrow> ID \<Rightarrow> bool \<Rightarrow> (idAllocator \<times> (error + ID)) option" where
  "scanID sid alloc svc startingID rollover =
     (if nextID alloc = startingID \<and> rollover then Some (alloc, Inl ErrNoIDAvailable)
      else
        let wrap = (nextID alloc = maxID alloc);
            alloc1 = (if wrap then alloc\<lparr>nextID := initNextID alloc\<rparr> else alloc);
            rollover1 = (rollover \<or> wrap)
        in if entitiesID alloc1 (nextID alloc1) = None
           then (case addID sid alloc1 svc (nextID alloc1) of
                   (alloc2, svcID) \<Rightarrow> Some (alloc2\<lparr>nextID := nextID alloc2 + 1\<rparr>, Inr svcID))
           else scanID sid (alloc1\<lparr>nextID := nextID alloc1 + 1\<rparr>) svc startingID rollover1)"

definition acquireLocalID ::
  "(L3n4Addr \<Rightarrow> string) \<Rightarrow> idAllocator \<Rightarrow> L3n4Addr \<Rightarrow> ID \<Rightarrow> (idAllocator \<times> (error + ID)) option" where
  "acquireLocalID sid alloc svc desiredID =
     (case (case entities alloc (sid svc) of None \<Rightarrow> None | Some svcID \<Rightarrow> entitiesID alloc svcID) of
        Some found \<Rightarrow> Some (alloc, Inr (id_ID found))
      | None \<Rightarrow>
          if desiredID \<noteq> 0 then
            (case entitiesID alloc desiredID of
               None \<Rightarrow>
                 (case addID sid (if desiredID \<ge> nextID alloc then alloc\<lparr>nextID := desiredID\<rparr> else alloc)
                         svc desiredID of
                    (alloc2, i) \<Rightarrow> Some (alloc2, Inr i))
             | Some foundSVC \<Rightarrow> Some (alloc, Inl (ErrAlreadyRegistered desiredID foundSVC)))
          else scanID sid alloc svc (nextID alloc) False)"

definition deleteLocalID :: "(L3n4Addr \<Rightarrow> string) \<Rightarrow> idAllocator \<Rightarrow> ID \<Rightarrow> idAllocator" where
  "deleteLocalID sid alloc i =
     (case entitiesID alloc i of
        Some svc \<Rightarrow> alloc\<lparr>entitiesID := (entitiesID alloc)(i := None),
                          entities := (entities alloc)(sid (id_L3n4Addr svc) := None)\<rparr>
      | None \<Rightarrow> alloc)"

definition lookupLocalID :: "(L3n4Addr \<Rightarrow> string) \<Rightarrow> idAllocator \<Rightarrow> L3n4Addr \<Rightarrow> error + ID" where
  "lookupLocalID sid alloc svc =
     (case entities alloc (sid svc) of Some svcID \<Rightarrow> Inr svcID | None \<Rightarrow> Inl ErrIDNotFound)"


section \<open>Sets and sorting\<close>

text \<open>
  A \<^verbatim>\<open>sets.Set\<close> is a list without repetitions, in insertion order. Go ranges
  over a set in an unspecified order; the list order stands for one such order, and no
  theorem below depends on which.
\<close>

definition set_Has :: "'a list \<Rightarrow> 'a \<Rightarrow> bool" where
  "set_Has s x = (x \<in> set s)"

definition set_Insert :: "'a list \<Rightarrow> 'a \<Rightarrow> 'a list" where
  "set_Insert s x = (if x \<in> set s then s else s @ [x])"

definition set_Delete :: "'a list \<Rightarrow> 'a \<Rightarrow> 'a list" where
  "set_Delete s x = removeAll x s"

definition set_New :: "'a list \<Rightarrow> 'a list" where
  "set_New items = fold (\<lambda>x s. set_Insert s x) items []"

text \<open>
  \<^verbatim>\<open>sort.Slice\<close> with a \<^verbatim>\<open>less\<close> function. Go sorts a slice of up to twelve elements
  by the insertion sort below (each element sinks leftwards while it is less than its
  left neighbour). A longer slice goes through pattern-defeating quicksort, which is not
  modelled: it may leave elements that compare equal in another order than the insertion
  sort does. The model sorts by insertion at every length; of a slice of more than twelve
  elements the theorems use only that the sort is a function of the slice and returns a
  sorted slice as it is, and every theorem about the order of elements that compare equal
  is about a slice of two. \<open>sink\<close> works on the reversed prefix.
\<close>

fun sink :: "('a \<Rightarrow> 'a \<Rightarrow> bool) \<Rightarrow> 'a \<Rightarrow> 'a list \<Rightarrow> 'a list" where
  "sink lt x [] = [x]"
| "sink lt x (y # ys) = (if lt x y then y # sink lt x ys else x # y # ys)"

definition sort_Slice :: "('a \<Rightarrow> 'a \<Rightarrow> bool) \<Rightarrow> 'a list \<Rightarrow> 'a list" where
  "sort_Slice lt xs = rev (fold (sink lt) xs [])"

section \<open>Frontends and backends\<close>

text \<open>\<^verbatim>\<open>loadbalancer.BackendState\<close> is a \<^verbatim>\<open>uint8\<close>; \<^verbatim>\<open>BackendStateActive\<close> is its zero.\<close>

type_synonym BackendState = "8 word"

definition BackendStateActive :: BackendState where
  "BackendStateActive = 0"

text \<open>
  \<^verbatim>\<open>BackendWithRevision\<close>: the fields of the embedded \<^verbatim>\<open>Backend\<close> that the reconciler
  reads, and the revision.
\<close>

record BackendWithRevision =
  be_L3n4Addr :: L3n4Addr
  be_State :: BackendState
  be_ZoneID :: "8 word"
  be_Revision :: Revision

datatype SVCType =
    SVCTypeNone | SVCTypeHostPort | SVCTypeClusterIP | SVCTypeNodePort
  | SVCTypeExternalIPs | SVCTypeLoadBalancer | SVCTypeLocalRedirect

datatype SVCTrafficPolicy = SVCTrafficPolicyNone | SVCTrafficPolicyCluster | SVCTrafficPolicyLocal

datatype SVCNatPolicy = SVCNatPolicyNone | SVCNatPolicyNat46 | SVCNatPolicyNat64

text \<open>The fields of the service that \<^verbatim>\<open>fe.Service()\<close> returns and the reconciler reads.\<close>

record Service =
  ExtTrafficPolicy :: SVCTrafficPolicy
  IntTrafficPolicy :: SVCTrafficPolicy
  NatPolicy :: SVCNatPolicy
  SessionAffinity :: bool
  SessionAffinityTimeoutSec :: "32 word"
  L7ProxyPort :: "16 word"
  LoopbackHostPort :: bool

record Frontend =
  fe_Address :: L3n4Addr
  fe_Type :: SVCType
  fe_Backends :: "BackendWithRevision list"
  fe_nodePortAddrs :: "netip_Addr list"
  fe_Service :: Service

text \<open>The comparison that \<^verbatim>\<open>sortedBackends\<close> hands to \<^verbatim>\<open>sort.Slice\<close>.\<close>

definition backend_less :: "BackendWithRevision \<Rightarrow> BackendWithRevision \<Rightarrow> bool" where
  "backend_less a b =
     (if be_State a < be_State b then True
      else if be_State a > be_State b then False
      else
        (let c = Compare (ac_addr (AddrCluster (be_L3n4Addr a))) (ac_addr (AddrCluster (be_L3n4Addr b)))
         in if c = - 1 then True
            else if c = 0 then Port (be_L3n4Addr a) < Port (be_L3n4Addr b)
            else False))"

definition sortedBackends :: "BackendWithRevision list \<Rightarrow> BackendWithRevision list" where
  "sortedBackends bes = sort_Slice backend_less bes"

fun numActive :: "BackendWithRevision list \<Rightarrow> nat" where
  "numActive [] = 0"
| "numActive (be # bes) = (if be_State be \<noteq> BackendStateActive then 0 else Suc (numActive bes))"

section \<open>Table driver\<close>

text \<open>
  Keys and values of the four table families, with the fields the reconciler sets.
  A table row holds an address as 4 or 16 bytes, so a dumped row always has a valid
  address and its family is that of the map it lives in. Byte-order conversion
  (\<^verbatim>\<open>ToNetwork\<close>, \<^verbatim>\<open>ToHost\<close>) is the identity here. The slot of a service key is a
  natural number: the source only ever sets \<open>0\<close> and \<open>i + 1\<close>. A service value records
  what each setter of \<^verbatim>\<open>lbmap.ServiceValue\<close> was given, one field for each setter. In the
  tables themselves the slot and the count are 16 bits wide, and the session affinity
  timeout and the L7 proxy port reuse the bytes of the backend id; no theorem is about
  those bytes, nor about a frontend with more than 65535 backends.
\<close>

datatype table_IP = IP4 "32 word" | IP6 "128 word"

fun table_v6 :: "table_IP \<Rightarrow> bool" where
  "table_v6 (IP6 _) = True"
| "table_v6 (IP4 _) = False"

fun netip_of :: "table_IP \<Rightarrow> netip_Addr" where
  "netip_of (IP4 w) = Addr4 w"
| "netip_of (IP6 w) = Addr6 w"

text \<open>
  \<^verbatim>\<open>NewService4Key\<close> and \<^verbatim>\<open>NewService6Key\<close> copy the bytes of the address into the
  key; the source picks the IPv6 constructor exactly when the address is IPv6, and the
  IPv4 one copies nothing from an address that is not IPv4.
\<close>

fun keyIP :: "netip_Addr \<Rightarrow> table_IP" where
  "keyIP (Addr4 w) = IP4 w"
| "keyIP (Addr6 w) = IP6 w"
| "keyIP AddrZero = IP4 0"

record ServiceKey =
  sk_addr :: table_IP
  sk_port :: "16 word"
  sk_proto :: "8 word"
  sk_scope :: "8 word"
  sk_slot :: nat

record ServiceValue =
  sv_v6 :: bool
  sv_backendID :: BackendID
  sv_count :: nat
  sv_revNat :: "16 word"
  sv_flags :: "16 word"
  sv_affinityTimeout :: "32 word"
  sv_l7ProxyPort :: "16 word"

record BackendKey =
  bk_v6 :: bool
  bk_id :: BackendID

record BackendValue =
  bv_addr :: table_IP
  bv_port :: "16 word"
  bv_proto :: "8 word"
  bv_state :: BackendState
  bv_zone :: "8 word"

record RevNatKey =
  rk_v6 :: bool
  rk_key :: "16 word"

record RevNatValue =
  rv_addr :: table_IP
  rv_port :: "16 word"

record AffinityMatchKey =
  am_backendID :: BackendID
  am_revNATID :: "16 word"

text \<open>
  One constructor per call the reconciler makes on a table, whether through
  \<^verbatim>\<open>ops.lbmaps\<close> or on a map of package \<^verbatim>\<open>lbmap\<close> directly.
\<close>

datatype dpop =
    UpdateService ServiceKey ServiceValue
  | DeleteService ServiceKey
  | SilentDeleteService ServiceKey
  | MapDeleteService ServiceKey
  | UpdateBackend BackendKey BackendValue
  | SilentDeleteBackend BackendKey
  | MapDeleteBackend BackendKey
  | UpdateRevNat RevNatKey RevNatValue
  | DeleteRevNat RevNatKey
  | UpdateAffinityMatch AffinityMatchKey
  | SilentDeleteAffinityMatch AffinityMatchKey

record SvcFlagParam =
  SvcType :: SVCType
  SvcExtLocal :: bool
  SvcIntLocal :: bool
  SvcNatPolicy :: SVCNatPolicy
  fp_SessionAffinity :: bool
  IsRoutable :: bool
  L7LoadBalancer :: bool
  fp_LoopbackHostport :: bool

text \<open>
  What the reconciler takes from outside this file: the canonical string of an address,
  the table driver (a step function on the driver's own state \<open>'d\<close>, which may fail
  and may change state even then), the table dumps, two configuration options, and three
  functions of packages \<^verbatim>\<open>loadbalancer\<close> and \<^verbatim>\<open>lbmap\<close>.
\<close>

record 'd env =
  StringID :: "L3n4Addr \<Rightarrow> string"
  driver :: "dpop \<Rightarrow> 'd \<Rightarrow> 'd \<times> error option"
  DumpService4 :: "'d \<Rightarrow> (ServiceKey \<times> ServiceValue) list"
  DumpService6 :: "'d \<Rightarrow> (ServiceKey \<times> ServiceValue) list"
  DumpBackend4 :: "'d \<Rightarrow> (BackendKey \<times> BackendValue) list"
  DumpBackend6 :: "'d \<Rightarrow> (BackendKey \<times> BackendValue) list"
  DumpRevNat :: "'d \<Rightarrow> (RevNatKey \<times> RevNatValue) list \<times> error option"
  EnableSessionAffinity :: bool
  ExternalClusterIP :: bool
  NewSvcFlag :: "SvcFlagParam \<Rightarrow> 16 word"
  IsSurrogate :: "ServiceKey \<Rightarrow> bool"
  NewBackendV3 :: "bool \<Rightarrow> BackendID \<Rightarrow> BackendWithRevision \<Rightarrow> error + BackendKey \<times> BackendValue"

section \<open>Reconciler state\<close>

record backendState =
  bs_addr :: L3n4Addr
  bs_revision :: Revision
  bs_refCount :: int
  bs_id :: BackendID

definition zero_L3n4Addr :: L3n4Addr where
  "zero_L3n4Addr =
     \<lparr>AddrCluster = \<lparr>ac_addr = AddrZero, ac_clusterID = 0\<rparr>, Protocol = [], Port = 0, Scope = 0\<rparr>"

text \<open>Reading a missing key of a Go map gives the zero value of the element type.\<close>

definition zero_backendState :: backendState where
  "zero_backendState = \<lparr>bs_addr = zero_L3n4Addr, bs_revision = 0, bs_refCount = 0, bs_id = 0\<rparr>"

definition stateOf :: "(L3n4Addr \<rightharpoonup> backendState) \<Rightarrow> L3n4Addr \<Rightarrow> backendState" where
  "stateOf m a = (case m a of Some s \<Rightarrow> s | None \<Rightarrow> zero_backendState)"

definition refsOf :: "(L3n4Addr \<rightharpoonup> L3n4Addr list) \<Rightarrow> L3n4Addr \<Rightarrow> L3n4Addr list" where
  "refsOf m a = (case m a of Some s \<Rightarrow> s | None \<Rightarrow> [])"

text \<open>
  \<open>lbmaps\<close> is the state of the table driver; \<open>trace\<close> is a ghost field, the list of
  table calls issued so far, oldest first. The logger is left out.
\<close>

record 'd bpfOps =
  lbmaps :: 'd
  trace :: "dpop list"
  serviceIDAlloc :: idAllocator
  restoredServiceIDs :: "ID list"
  backendIDAlloc :: idAllocator
  restoredBackendIDs :: "BackendID list"
  backendStates :: "L3n4Addr \<rightharpoonup> backendState"
  backendReferences :: "L3n4Addr \<rightharpoonup> L3n4Addr list"
  nodePortAddrs :: "16 word \<rightharpoonup> netip_Addr list"

definition call :: "'d env \<Rightarrow> dpop \<Rightarrow> 'd bpfOps \<Rightarrow> 'd bpfOps \<times> error option" where
  "call env op ops =
     (case driver env op (lbmaps ops) of
        (d, e) \<Rightarrow> (ops\<lparr>lbmaps := d, trace := trace ops @ [op]\<rparr>, e))"

section \<open>Backend registry\<close>

text \<open>First loop of \<^verbatim>\<open>updateBackendRefCounts\<close>, over the old references.\<close>

fun decreaseRefs ::
  "L3n4Addr list \<Rightarrow> L3n4Addr list \<Rightarrow> (L3n4Addr \<rightharpoonup> backendState)
   \<Rightarrow> L3n4Addr list \<times> (L3n4Addr \<rightharpoonup> backendState)" where
  "decreaseRefs [] newRefs states = (newRefs, states)"
| "decreaseRefs (a # oldRefs) newRefs states =
     (if set_Has newRefs a then decreaseRefs oldRefs (set_Delete newRefs a) states
      else
        (case states a of
           Some s \<Rightarrow>
             if bs_refCount s > 1
             then decreaseRefs oldRefs newRefs (states(a \<mapsto> s\<lparr>bs_refCount := bs_refCount s - 1\<rparr>))
             else decreaseRefs oldRefs newRefs states
         | None \<Rightarrow> decreaseRefs oldRefs newRefs states))"

text \<open>Second loop, over what is left of the new references.\<close>

fun increaseRefs :: "L3n4Addr list \<Rightarrow> (L3n4Addr \<rightharpoonup> backendState) \<Rightarrow> (L3n4Addr \<rightharpoonup> backendState)" where
  "increaseRefs [] states = states"
| "increaseRefs (a # newRefs) states =
     increaseRefs newRefs
       (states(a \<mapsto> (stateOf states a)\<lparr>bs_addr := a, bs_refCount := bs_refCount (stateOf states a) + 1\<rparr>))"

definition updateBackendRefCounts :: "'d bpfOps \<Rightarrow> L3n4Addr \<Rightarrow> L3n4Addr list \<Rightarrow> 'd bpfOps" where
  "updateBackendRefCounts ops frontend backends =
     (case (case backendReferences ops frontend of
              Some oldRefs \<Rightarrow> decreaseRefs oldRefs backends (backendStates ops)
            | None \<Rightarrow> (backends, backendStates ops)) of
        (newRefs, states) \<Rightarrow> ops\<lparr>backendStates := increaseRefs newRefs states\<rparr>)"

definition updateReferences :: "'d bpfOps \<Rightarrow> L3n4Addr \<Rightarrow> L3n4Addr list \<Rightarrow> 'd bpfOps" where
  "updateReferences ops frontend backends =
     (updateBackendRefCounts ops frontend backends)
       \<lparr>backendReferences := (backendReferences (updateBackendRefCounts ops frontend backends))(frontend \<mapsto> backends)\<rparr>"

fun orphanLoop ::
  "(L3n4Addr \<rightharpoonup> backendState) \<Rightarrow> L3n4Addr list \<Rightarrow> L3n4Addr list \<Rightarrow> backendState list" where
  "orphanLoop states backends [] = []"
| "orphanLoop states backends (a # oldRefs) =
     (if set_Has backends a then orphanLoop states backends oldRefs
      else
        (case states a of
           Some state \<Rightarrow>
             if bs_refCount state \<le> 1 then state # orphanLoop states backends oldRefs
             else orphanLoop states backends oldRefs
         | None \<Rightarrow> orphanLoop states backends oldRefs))"

definition orphanBackends :: "'d bpfOps \<Rightarrow> L3n4Addr \<Rightarrow> L3n4Addr list \<Rightarrow> backendState list" where
  "orphanBackends ops frontend backends =
     (case backendReferences ops frontend of
        Some oldRefs \<Rightarrow> orphanLoop (backendStates ops) backends oldRefs
      | None \<Rightarrow> [])"

definition needsUpdate :: "'d bpfOps \<Rightarrow> L3n4Addr \<Rightarrow> Revision \<Rightarrow> bool" where
  "needsUpdate ops a r = (r > bs_revision (stateOf (backendStates ops) a))"

definition updateBackendRevision :: "'d bpfOps \<Rightarrow> BackendID \<Rightarrow> L3n4Addr \<Rightarrow> Revision \<Rightarrow> 'd bpfOps" where
  "updateBackendRevision ops i a r =
     ops\<lparr>backendStates :=
           (backendStates ops)(a \<mapsto> (stateOf (backendStates ops) a)\<lparr>bs_id := i, bs_revision := r\<rparr>)\<rparr>"

definition releaseBackend :: "'d env \<Rightarrow> 'd bpfOps \<Rightarrow> BackendID \<Rightarrow> L3n4Addr \<Rightarrow> 'd bpfOps" where
  "releaseBackend env ops i a =
     ops\<lparr>backendStates := (backendStates ops)(a := None),
         backendIDAlloc := deleteLocalID (StringID env) (backendIDAlloc ops) i\<rparr>"


section \<open>Table writes\<close>

text \<open>\<^verbatim>\<open>errors.Is(err, unix.E2BIG)\<close>; the errno of \<^verbatim>\<open>E2BIG\<close> is 7.\<close>

fun is_E2BIG :: "error \<Rightarrow> bool" where
  "is_E2BIG (DriverError n) = (n = 7)"
| "is_E2BIG (Wrapped _ e) = is_E2BIG e"
| "is_E2BIG (Joined es) = list_ex is_E2BIG es"
| "is_E2BIG _ = False"

definition upsertService :: "'d env \<Rightarrow> ServiceKey \<Rightarrow> ServiceValue \<Rightarrow> 'd bpfOps \<Rightarrow> 'd bpfOps \<times> error option" where
  "upsertService env svcKey svcVal ops =
     (case call env (UpdateService svcKey svcVal) ops of
        (ops1, Some err) \<Rightarrow> if is_E2BIG err then (ops1, Some ErrServiceMapFull) else (ops1, Some err)
      | (ops1, None) \<Rightarrow> (ops1, None))"

definition upsertMaster ::
  "'d env \<Rightarrow> ServiceKey \<Rightarrow> ServiceValue \<Rightarrow> Frontend \<Rightarrow> nat \<Rightarrow> 'd bpfOps \<Rightarrow> 'd bpfOps \<times> error option" where
  "upsertMaster env svcKey svcVal fe activeBackends ops =
     (let svc = fe_Service fe;
          v1 = svcVal\<lparr>sv_count := activeBackends, sv_backendID := 0\<rparr>;
          v2 = (if SessionAffinity svc then v1\<lparr>sv_affinityTimeout := SessionAffinityTimeoutSec svc\<rparr> else v1);
          v3 = (if L7ProxyPort svc \<noteq> 0 then v2\<lparr>sv_l7ProxyPort := L7ProxyPort svc\<rparr> else v2)
      in upsertService env (svcKey\<lparr>sk_slot := 0\<rparr>) v3 ops)"

fun cleanupLoop :: "'d env \<Rightarrow> ServiceKey \<Rightarrow> nat list \<Rightarrow> 'd bpfOps \<Rightarrow> 'd bpfOps \<times> error option" where
  "cleanupLoop env svcKey [] ops = (ops, None)"
| "cleanupLoop env svcKey (i # rest) ops =
     (case call env (SilentDeleteService (svcKey\<lparr>sk_slot := i + 1\<rparr>)) ops of
        (ops1, Some err) \<Rightarrow> (ops1, Some (Wrapped ''cleanup service slot'' err))
      | (ops1, None) \<Rightarrow> cleanupLoop env svcKey rest ops1)"

definition cleanupSlots :: "'d env \<Rightarrow> ServiceKey \<Rightarrow> nat \<Rightarrow> nat \<Rightarrow> 'd bpfOps \<Rightarrow> 'd bpfOps \<times> error option" where
  "cleanupSlots env svcKey oldCount newCount ops = cleanupLoop env svcKey [newCount..<oldCount] ops"

definition upsertBackend :: "'d env \<Rightarrow> BackendID \<Rightarrow> BackendWithRevision \<Rightarrow> 'd bpfOps \<Rightarrow> 'd bpfOps \<times> error option" where
  "upsertBackend env i be ops =
     (case NewBackendV3 env (Is6 (ac_addr (AddrCluster (be_L3n4Addr be)))) i be of
        Inl err \<Rightarrow> (ops, Some err)
      | Inr (k, v) \<Rightarrow> call env (UpdateBackend k v) ops)"

definition deleteBackend :: "'d env \<Rightarrow> bool \<Rightarrow> BackendID \<Rightarrow> 'd bpfOps \<Rightarrow> 'd bpfOps \<times> error option" where
  "deleteBackend env ipv6 i ops =
     (case call env (SilentDeleteBackend \<lparr>bk_v6 = ipv6, bk_id = i\<rparr>) ops of
        (ops1, Some err) \<Rightarrow> (ops1, Some (Wrapped ''delete backend'' err))
      | (ops1, None) \<Rightarrow> (ops1, None))"

definition upsertAffinityMatch :: "'d env \<Rightarrow> ID \<Rightarrow> BackendID \<Rightarrow> 'd bpfOps \<Rightarrow> 'd bpfOps \<times> error option" where
  "upsertAffinityMatch env i beID ops =
     (if \<not> EnableSessionAffinity env then (ops, None)
      else call env (UpdateAffinityMatch \<lparr>am_backendID = beID, am_revNATID = ucast i\<rparr>) ops)"

definition deleteAffinityMatch :: "'d env \<Rightarrow> ID \<Rightarrow> BackendID \<Rightarrow> 'd bpfOps \<Rightarrow> 'd bpfOps \<times> error option" where
  "deleteAffinityMatch env i beID ops =
     (if \<not> EnableSessionAffinity env then (ops, None)
      else call env (SilentDeleteAffinityMatch \<lparr>am_backendID = beID, am_revNATID = ucast i\<rparr>) ops)"

definition upsertRevNat :: "'d env \<Rightarrow> ID \<Rightarrow> ServiceKey \<Rightarrow> ServiceValue \<Rightarrow> 'd bpfOps \<Rightarrow> 'd bpfOps \<times> error option" where
  "upsertRevNat env i svcKey svcVal ops =
     (let revNATKey = \<lparr>rk_v6 = sv_v6 svcVal, rk_key = ucast i\<rparr>;
          revNATValue = \<lparr>rv_addr = sk_addr svcKey, rv_port = sk_port svcKey\<rparr>
      in if rk_key revNATKey = 0 then (ops, Some ErrInvalidRevNat)
         else
           (case call env (UpdateRevNat revNATKey revNATValue) ops of
              (ops1, Some err) \<Rightarrow> (ops1, Some (Wrapped ''Unable to update reverse NAT'' err))
            | (ops1, None) \<Rightarrow> (ops1, None)))"


section \<open>Reconciling one frontend\<close>

definition newServiceKey :: "L3n4Addr \<Rightarrow> ServiceKey" where
  "newServiceKey a =
     \<lparr>sk_addr = keyIP (ac_addr (AddrCluster a)), sk_port = Port a, sk_proto = 0,
      sk_scope = Scope a, sk_slot = 0\<rparr>"

definition zeroServiceValue :: "bool \<Rightarrow> ServiceValue" where
  "zeroServiceValue v6 =
     \<lparr>sv_v6 = v6, sv_backendID = 0, sv_count = 0, sv_revNat = 0, sv_flags = 0,
      sv_affinityTimeout = 0, sv_l7ProxyPort = 0\<rparr>"

definition svcFlags :: "'d env \<Rightarrow> Frontend \<Rightarrow> ServiceKey \<Rightarrow> 16 word" where
  "svcFlags env fe svcKey =
     (let isRoutable = (\<not> IsSurrogate env svcKey \<and> (fe_Type fe \<noteq> SVCTypeClusterIP \<or> ExternalClusterIP env));
          svc = fe_Service fe
      in NewSvcFlag env
           \<lparr>SvcType = fe_Type fe,
            SvcExtLocal = (ExtTrafficPolicy svc = SVCTrafficPolicyLocal),
            SvcIntLocal = (IntTrafficPolicy svc = SVCTrafficPolicyLocal),
            SvcNatPolicy = NatPolicy svc,
            fp_SessionAffinity = SessionAffinity svc,
            IsRoutable = isRoutable,
            L7LoadBalancer = (L7ProxyPort svc \<noteq> 0),
            fp_LoopbackHostport = LoopbackHostPort svc\<rparr>)"

text \<open>The loop of \<^verbatim>\<open>updateFrontend\<close> over the orphans.\<close>

fun deleteOrphansOnUpdate :: "'d env \<Rightarrow> ID \<Rightarrow> backendState list \<Rightarrow> 'd bpfOps \<Rightarrow> 'd bpfOps \<times> error option" where
  "deleteOrphansOnUpdate env feID [] ops = (ops, None)"
| "deleteOrphansOnUpdate env feID (orphanState # rest) ops =
     (case deleteBackend env (IsIPv6 (bs_addr orphanState)) (bs_id orphanState) ops of
        (ops1, Some err) \<Rightarrow> (ops1, Some (Wrapped ''delete backend'' err))
      | (ops1, None) \<Rightarrow>
          (case deleteAffinityMatch env feID (bs_id orphanState) ops1 of
             (ops2, Some err) \<Rightarrow> (ops2, Some (Wrapped ''delete affinity match'' err))
           | (ops2, None) \<Rightarrow>
               deleteOrphansOnUpdate env feID rest
                 (releaseBackend env ops2 (bs_id orphanState) (bs_addr orphanState))))"

text \<open>The first statement of the loop over the backends: reuse the id or acquire one.\<close>

definition backendIDFor :: "'d env \<Rightarrow> L3n4Addr \<Rightarrow> 'd bpfOps \<Rightarrow> ('d bpfOps \<times> (error + BackendID)) option" where
  "backendIDFor env a ops =
     (case (case backendStates ops a of
              Some s \<Rightarrow> if bs_id s \<noteq> 0 then Some (bs_id s) else None
            | None \<Rightarrow> None) of
        Some i \<Rightarrow> Some (ops, Inr i)
      | None \<Rightarrow>
          (case acquireLocalID (StringID env) (backendIDAlloc ops) a 0 of
             None \<Rightarrow> None
           | Some (alloc, r) \<Rightarrow> Some (ops\<lparr>backendIDAlloc := alloc\<rparr>, r)))"

text \<open>
  The body of the loop over the sorted backends, statement by statement; \<open>i\<close> is the
  index. Second statement: write the backend row if its revision is stale.
\<close>

definition refreshBackend :: "'d env \<Rightarrow> BackendID \<Rightarrow> BackendWithRevision \<Rightarrow> 'd bpfOps \<Rightarrow> 'd bpfOps \<times> error option" where
  "refreshBackend env beID be ops =
     (if needsUpdate ops (be_L3n4Addr be) (be_Revision be)
      then (case upsertBackend env beID be ops of
              (ops1, Some err) \<Rightarrow> (ops1, Some (Wrapped ''upsert backend'' err))
            | (ops1, None) \<Rightarrow> (updateBackendRevision ops1 beID (be_L3n4Addr be) (be_Revision be), None))
      else (ops, None))"

text \<open>Third statement: write the slot of an active backend.\<close>

definition writeSlot ::
  "'d env \<Rightarrow> ID \<Rightarrow> ServiceKey \<Rightarrow> ServiceValue \<Rightarrow> nat \<Rightarrow> BackendID \<Rightarrow> BackendWithRevision
   \<Rightarrow> 'd bpfOps \<Rightarrow> 'd bpfOps \<times> error option" where
  "writeSlot env feID svcKey svcVal i beID be ops =
     (if be_State be = BackendStateActive
      then (case upsertService env (svcKey\<lparr>sk_slot := i + 1\<rparr>)
                   (svcVal\<lparr>sv_backendID := beID, sv_revNat := ucast feID\<rparr>) ops of
              (ops1, Some err) \<Rightarrow> (ops1, Some (Wrapped ''upsert service'' err))
            | (ops1, None) \<Rightarrow> (ops1, None))
      else (ops, None))"

text \<open>Fourth statement: write or delete the affinity match.\<close>

definition writeAffinity ::
  "'d env \<Rightarrow> Frontend \<Rightarrow> ID \<Rightarrow> BackendID \<Rightarrow> BackendWithRevision \<Rightarrow> 'd bpfOps \<Rightarrow> 'd bpfOps \<times> error option" where
  "writeAffinity env fe feID beID be ops =
     (if SessionAffinity (fe_Service fe) \<and> be_State be = BackendStateActive
      then (case upsertAffinityMatch env feID beID ops of
              (ops1, Some err) \<Rightarrow> (ops1, Some (Wrapped ''upsert affinity match'' err))
            | (ops1, None) \<Rightarrow> (ops1, None))
      else (case deleteAffinityMatch env feID beID ops of
              (ops1, Some err) \<Rightarrow> (ops1, Some (Wrapped ''delete affinity match'' err))
            | (ops1, None) \<Rightarrow> (ops1, None)))"

text \<open>
  One pass through the body. The loop leaves in \<open>svcVal\<close> only a backend id and the same
  reverse NAT id, and \<^verbatim>\<open>upsertMaster\<close> resets the backend id before anything reads it, so
  \<open>svcVal\<close> is not returned.
\<close>

definition updateBackendStep ::
  "'d env \<Rightarrow> Frontend \<Rightarrow> ID \<Rightarrow> ServiceKey \<Rightarrow> ServiceValue \<Rightarrow> nat \<Rightarrow> BackendWithRevision
   \<Rightarrow> 'd bpfOps \<Rightarrow> ('d bpfOps \<times> error option) option" where
  "updateBackendStep env fe feID svcKey svcVal i be ops =
     (case backendIDFor env (be_L3n4Addr be) ops of
        None \<Rightarrow> None
      | Some (ops1, Inl err) \<Rightarrow> Some (ops1, Some err)
      | Some (ops1, Inr beID) \<Rightarrow>
          Some (case refreshBackend env beID be ops1 of
                  (ops2, Some err) \<Rightarrow> (ops2, Some err)
                | (ops2, None) \<Rightarrow>
                    (case writeSlot env feID svcKey svcVal i beID be ops2 of
                       (ops3, Some err) \<Rightarrow> (ops3, Some err)
                     | (ops3, None) \<Rightarrow> writeAffinity env fe feID beID be ops3)))"

fun updateBackendsLoop ::
  "'d env \<Rightarrow> Frontend \<Rightarrow> ID \<Rightarrow> ServiceKey \<Rightarrow> ServiceValue \<Rightarrow> nat \<Rightarrow> BackendWithRevision list
   \<Rightarrow> 'd bpfOps \<Rightarrow> ('d bpfOps \<times> error option) option" where
  "updateBackendsLoop env fe feID svcKey svcVal i [] ops = Some (ops, None)"
| "updateBackendsLoop env fe feID svcKey svcVal i (be # rest) ops =
     (case updateBackendStep env fe feID svcKey svcVal i be ops of
        None \<Rightarrow> None
      | Some (ops1, Some err) \<Rightarrow> Some (ops1, Some err)
      | Some (ops1, None) \<Rightarrow> updateBackendsLoop env fe feID svcKey svcVal (i + 1) rest ops1)"

text \<open>What \<^verbatim>\<open>updateFrontend\<close> does once the backends are written.\<close>

definition finishUpdate ::
  "'d env \<Rightarrow> Frontend \<Rightarrow> ID \<Rightarrow> ServiceKey \<Rightarrow> ServiceValue \<Rightarrow> BackendWithRevision list
   \<Rightarrow> L3n4Addr list \<Rightarrow> 'd bpfOps \<Rightarrow> 'd bpfOps \<times> error option" where
  "finishUpdate env fe feID svcKey svcVal orderedBackends backendAddrs ops =
     (let numPreviousBackends = length (refsOf (backendReferences ops) (fe_Address fe)) in
      case upsertRevNat env feID svcKey svcVal ops of
        (ops1, Some err) \<Rightarrow> (ops1, Some (Wrapped ''upsert reverse nat'' err))
      | (ops1, None) \<Rightarrow>
          (let numActiveBackends = numActive orderedBackends in
           case upsertMaster env svcKey svcVal fe numActiveBackends ops1 of
             (ops2, Some err) \<Rightarrow> (ops2, Some (Wrapped ''upsert service master'' err))
           | (ops2, None) \<Rightarrow>
               (case cleanupSlots env svcKey numPreviousBackends numActiveBackends ops2 of
                  (ops3, Some err) \<Rightarrow> (ops3, Some (Wrapped ''cleanup service slots'' err))
                | (ops3, None) \<Rightarrow> (updateReferences ops3 (fe_Address fe) backendAddrs, None))))"

definition backendAddrsOf :: "BackendWithRevision list \<Rightarrow> L3n4Addr list" where
  "backendAddrsOf orderedBackends = fold (\<lambda>be s. set_Insert s (be_L3n4Addr be)) orderedBackends []"

definition updateFrontend :: "'d env \<Rightarrow> Frontend \<Rightarrow> 'd bpfOps \<Rightarrow> ('d bpfOps \<times> error option) option" where
  "updateFrontend env fe ops =
     (case acquireLocalID (StringID env) (serviceIDAlloc ops) (fe_Address fe) 0 of
        None \<Rightarrow> None
      | Some (alloc, Inl err) \<Rightarrow> Some (ops\<lparr>serviceIDAlloc := alloc\<rparr>, Some (Wrapped ''failed to allocate id'' err))
      | Some (alloc, Inr feID) \<Rightarrow>
          (let ops0 = ops\<lparr>serviceIDAlloc := alloc\<rparr>;
               svcKey = newServiceKey (fe_Address fe);
               svcVal = (zeroServiceValue (IsIPv6 (fe_Address fe)))
                          \<lparr>sv_flags := svcFlags env fe svcKey, sv_revNat := ucast feID\<rparr>;
               orderedBackends = sortedBackends (fe_Backends fe);
               backendAddrs = backendAddrsOf orderedBackends
           in case deleteOrphansOnUpdate env feID (orphanBackends ops0 (fe_Address fe) backendAddrs) ops0 of
                (ops1, Some err) \<Rightarrow> Some (ops1, Some err)
              | (ops1, None) \<Rightarrow>
                  (case updateBackendsLoop env fe feID svcKey svcVal 0 orderedBackends ops1 of
                     None \<Rightarrow> None
                   | Some (ops2, Some err) \<Rightarrow> Some (ops2, Some err)
                   | Some (ops2, None) \<Rightarrow>
                       Some (finishUpdate env fe feID svcKey svcVal orderedBackends backendAddrs ops2))))"

section \<open>Deleting one frontend\<close>

fun deleteAffinityLoop :: "'d env \<Rightarrow> ID \<Rightarrow> L3n4Addr list \<Rightarrow> 'd bpfOps \<Rightarrow> 'd bpfOps \<times> error option" where
  "deleteAffinityLoop env feID [] ops = (ops, None)"
| "deleteAffinityLoop env feID (a # rest) ops =
     (case deleteAffinityMatch env feID (bs_id (stateOf (backendStates ops) a)) ops of
        (ops1, Some err) \<Rightarrow> (ops1, Some (Wrapped ''delete affinity match'' err))
      | (ops1, None) \<Rightarrow> deleteAffinityLoop env feID rest ops1)"

fun deleteOrphansOnDelete :: "'d env \<Rightarrow> backendState list \<Rightarrow> 'd bpfOps \<Rightarrow> 'd bpfOps \<times> error option" where
  "deleteOrphansOnDelete env [] ops = (ops, None)"
| "deleteOrphansOnDelete env (orphanState # rest) ops =
     (case deleteBackend env (IsIPv6 (bs_addr orphanState)) (bs_id orphanState) ops of
        (ops1, Some err) \<Rightarrow> (ops1, Some (Wrapped ''delete backend'' err))
      | (ops1, None) \<Rightarrow>
          deleteOrphansOnDelete env rest (releaseBackend env ops1 (bs_id orphanState) (bs_addr orphanState)))"

fun deleteSlotsLoop :: "'d env \<Rightarrow> ServiceKey \<Rightarrow> nat list \<Rightarrow> 'd bpfOps \<Rightarrow> 'd bpfOps \<times> error option" where
  "deleteSlotsLoop env svcKey [] ops = (ops, None)"
| "deleteSlotsLoop env svcKey (i # rest) ops =
     (case call env (DeleteService (svcKey\<lparr>sk_slot := i\<rparr>)) ops of
        (ops1, Some err) \<Rightarrow> (ops1, Some (Wrapped ''delete from services map'' err))
      | (ops1, None) \<Rightarrow> deleteSlotsLoop env svcKey rest ops1)"

definition deleteFrontend :: "'d env \<Rightarrow> Frontend \<Rightarrow> 'd bpfOps \<Rightarrow> 'd bpfOps \<times> error option" where
  "deleteFrontend env fe ops =
     (case lookupLocalID (StringID env) (serviceIDAlloc ops) (fe_Address fe) of
        Inl err \<Rightarrow> (ops, None)
      | Inr feID \<Rightarrow>
          (case deleteAffinityLoop env feID (refsOf (backendReferences ops) (fe_Address fe)) ops of
             (ops1, Some err) \<Rightarrow> (ops1, Some err)
           | (ops1, None) \<Rightarrow>
               (case deleteOrphansOnDelete env (orphanBackends ops1 (fe_Address fe) []) ops1 of
                  (ops2, Some err) \<Rightarrow> (ops2, Some err)
                | (ops2, None) \<Rightarrow>
                    (let svcKey = newServiceKey (fe_Address fe);
                         revNatKey = \<lparr>rk_v6 = IsIPv6 (fe_Address fe), rk_key = ucast feID\<rparr>;
                         numBackends = length (refsOf (backendReferences ops2) (fe_Address fe))
                     in case deleteSlotsLoop env svcKey [0..<numBackends + 1] ops2 of
                          (ops3, Some err) \<Rightarrow> (ops3, Some err)
                        | (ops3, None) \<Rightarrow>
                            (case call env (DeleteRevNat revNatKey) ops3 of
                               (ops4, Some err) \<Rightarrow> (ops4, Some (Wrapped ''delete reverse nat'' err))
                             | (ops4, None) \<Rightarrow>
                                 (let ops5 = updateBackendRefCounts ops4 (fe_Address fe) [] in
                                  (ops5\<lparr>backendReferences := (backendReferences ops5)(fe_Address fe := None),
                                        serviceIDAlloc := deleteLocalID (StringID env) (serviceIDAlloc ops5) feID\<rparr>,
                                   None)))))))"


section \<open>Update and Delete\<close>

definition expandsPerNode :: "Frontend \<Rightarrow> bool" where
  "expandsPerNode fe =
     (fe_Type fe = SVCTypeNodePort \<or>
      fe_Type fe = SVCTypeHostPort \<and> IsUnspecified (AddrCluster (fe_Address fe)))"

text \<open>\<^verbatim>\<open>fe = fe.Clone(); fe.Address.AddrCluster = cmtypes.AddrClusterFrom(addr, 0)\<close>\<close>

definition withNodeAddr :: "Frontend \<Rightarrow> netip_Addr \<Rightarrow> Frontend" where
  "withNodeAddr fe a = fe\<lparr>fe_Address := (fe_Address fe)\<lparr>AddrCluster := AddrClusterFrom a 0\<rparr>\<rparr>"

text \<open>
  \<^verbatim>\<open>sortedBackends\<close> sorts the slice of the frontend in place, and a clone shares the
  slice: once \<^verbatim>\<open>updateFrontend\<close> has got past the allocation of the service id, the
  frontend that \<^verbatim>\<open>Update\<close> goes on with has its backends sorted.
\<close>

definition sortedInPlace :: "Frontend \<Rightarrow> Frontend" where
  "sortedInPlace fe = fe\<lparr>fe_Backends := sortedBackends (fe_Backends fe)\<rparr>"

text \<open>
  First loop of \<^verbatim>\<open>Update\<close>, over \<^verbatim>\<open>fe.nodePortAddrs\<close>. The variable \<^verbatim>\<open>fe\<close> is
  reassigned in the loop, so the loop returns it, with what is left of \<^verbatim>\<open>old\<close>.
\<close>

fun updateNodePorts ::
  "'d env \<Rightarrow> Frontend \<Rightarrow> netip_Addr list \<Rightarrow> netip_Addr list \<Rightarrow> 'd bpfOps
   \<Rightarrow> ('d bpfOps \<times> (error + Frontend \<times> netip_Addr list)) option" where
  "updateNodePorts env fe [] old ops = Some (ops, Inr (fe, old))"
| "updateNodePorts env fe (a # rest) old ops =
     (if IsIPv6 (fe_Address fe) \<noteq> Is6 a then updateNodePorts env fe rest old ops
      else
        (case updateFrontend env (withNodeAddr fe a) ops of
           None \<Rightarrow> None
         | Some (ops1, Some err) \<Rightarrow> Some (ops1, Inl err)
         | Some (ops1, None) \<Rightarrow>
             updateNodePorts env (sortedInPlace (withNodeAddr fe a)) rest (set_Delete old a) ops1))"

text \<open>Second loop of \<^verbatim>\<open>Update\<close>, over what is left of \<^verbatim>\<open>old\<close>.\<close>

fun deleteOldNodePorts ::
  "'d env \<Rightarrow> Frontend \<Rightarrow> netip_Addr list \<Rightarrow> 'd bpfOps \<Rightarrow> 'd bpfOps \<times> (error + Frontend)" where
  "deleteOldNodePorts env fe [] ops = (ops, Inr fe)"
| "deleteOldNodePorts env fe (a # rest) ops =
     (if IsIPv6 (fe_Address fe) \<noteq> Is6 a then deleteOldNodePorts env fe rest ops
      else
        (case deleteFrontend env (withNodeAddr fe a) ops of
           (ops1, Some err) \<Rightarrow> (ops1, Inl err)
         | (ops1, None) \<Rightarrow> deleteOldNodePorts env (withNodeAddr fe a) rest ops1))"

definition Update :: "'d env \<Rightarrow> Frontend \<Rightarrow> 'd bpfOps \<Rightarrow> ('d bpfOps \<times> error option) option" where
  "Update env fe ops =
     (case updateFrontend env fe ops of
        None \<Rightarrow> None
      | Some (ops1, Some err) \<Rightarrow> Some (ops1, Some err)
      | Some (ops1, None) \<Rightarrow>
          if expandsPerNode fe then
            (let fe1 = sortedInPlace fe;
                 old = set_New (case nodePortAddrs ops1 (Port (fe_Address fe1)) of Some l \<Rightarrow> l | None \<Rightarrow> [])
             in case updateNodePorts env fe1 (fe_nodePortAddrs fe1) old ops1 of
                  None \<Rightarrow> None
                | Some (ops2, Inl err) \<Rightarrow> Some (ops2, Some err)
                | Some (ops2, Inr (fe2, old2)) \<Rightarrow>
                    (case deleteOldNodePorts env fe2 old2 ops2 of
                       (ops3, Inl err) \<Rightarrow> Some (ops3, Some err)
                     | (ops3, Inr fe3) \<Rightarrow>
                         Some (ops3\<lparr>nodePortAddrs :=
                                      (nodePortAddrs ops3)(Port (fe_Address fe3) \<mapsto> fe_nodePortAddrs fe3)\<rparr>,
                               None)))
          else Some (ops1, None))"

text \<open>The loop of \<^verbatim>\<open>Delete\<close> over the recorded node addresses.\<close>

fun deleteNodePorts ::
  "'d env \<Rightarrow> Frontend \<Rightarrow> netip_Addr list \<Rightarrow> 'd bpfOps \<Rightarrow> 'd bpfOps \<times> (error + Frontend)" where
  "deleteNodePorts env fe [] ops = (ops, Inr fe)"
| "deleteNodePorts env fe (a # rest) ops =
     (case deleteFrontend env (withNodeAddr fe a) ops of
        (ops1, Some err) \<Rightarrow> (ops1, Inl err)
      | (ops1, None) \<Rightarrow> deleteNodePorts env (withNodeAddr fe a) rest ops1)"

definition Delete :: "'d env \<Rightarrow> Frontend \<Rightarrow> 'd bpfOps \<Rightarrow> 'd bpfOps \<times> error option" where
  "Delete env fe ops =
     (case deleteFrontend env fe ops of
        (ops1, Some err) \<Rightarrow> (ops1, Some err)
      | (ops1, None) \<Rightarrow>
          if expandsPerNode fe then
            (case nodePortAddrs ops1 (Port (fe_Address fe)) of
               Some addrs \<Rightarrow>
                 (case deleteNodePorts env fe addrs ops1 of
                    (ops2, Inl err) \<Rightarrow> (ops2, Some err)
                  | (ops2, Inr fe2) \<Rightarrow>
                      (ops2\<lparr>nodePortAddrs := (nodePortAddrs ops2)(Port (fe_Address fe2) := None)\<rparr>, None))
             | None \<Rightarrow> (ops1, None))
          else (ops1, None))"

section \<open>Prune\<close>

definition pruneRestoredIDs :: "'d env \<Rightarrow> 'd bpfOps \<Rightarrow> 'd bpfOps \<times> error option" where
  "pruneRestoredIDs env ops =
     (let svcAlloc =
            fold (\<lambda>i alloc.
                    case entitiesID alloc i of
                      Some a \<Rightarrow>
                        if backendReferences ops (id_L3n4Addr a) = None
                        then deleteLocalID (StringID env) alloc i else alloc
                    | None \<Rightarrow> alloc)
                 (restoredServiceIDs ops) (serviceIDAlloc ops);
          beAlloc =
            fold (\<lambda>i alloc.
                    case entitiesID alloc i of
                      Some a \<Rightarrow>
                        if backendStates ops (id_L3n4Addr a) = None
                        then deleteLocalID (StringID env) alloc i else alloc
                    | None \<Rightarrow> alloc)
                 (restoredBackendIDs ops) (backendIDAlloc ops)
      in (ops\<lparr>serviceIDAlloc := svcAlloc, backendIDAlloc := beAlloc,
               restoredServiceIDs := [], restoredBackendIDs := []\<rparr>, None))"

text \<open>Deletes whose failure is only logged.\<close>

fun callAll :: "'d env \<Rightarrow> dpop list \<Rightarrow> 'd bpfOps \<Rightarrow> 'd bpfOps" where
  "callAll env [] ops = ops"
| "callAll env (op # rest) ops = callAll env rest (fst (call env op ops))"

definition pruneServiceMaps :: "'d env \<Rightarrow> 'd bpfOps \<Rightarrow> 'd bpfOps \<times> error option" where
  "pruneServiceMaps env ops =
     (let svcCB = (\<lambda>(svcKey, v).
                     backendReferences ops
                       \<lparr>AddrCluster = \<lparr>ac_addr = netip_of (sk_addr svcKey), ac_clusterID = 0\<rparr>,
                        Protocol = TCP, Port = sk_port svcKey, Scope = sk_scope svcKey\<rparr> = None);
          toDelete = map fst (filter svcCB (DumpService4 env (lbmaps ops) @ DumpService6 env (lbmaps ops)))
      in (callAll env (map MapDeleteService toDelete) ops, None))"

definition beValueToAddr :: "BackendValue \<Rightarrow> L3n4Addr" where
  "beValueToAddr beValue =
     \<lparr>AddrCluster = \<lparr>ac_addr = netip_of (bv_addr beValue), ac_clusterID = 0\<rparr>,
      Protocol = TCP, Port = bv_port beValue, Scope = 0\<rparr>"

definition pruneBackendMaps :: "'d env \<Rightarrow> 'd bpfOps \<Rightarrow> 'd bpfOps \<times> error option" where
  "pruneBackendMaps env ops =
     (let beCB = (\<lambda>(beKey, beValue). backendStates ops (beValueToAddr beValue) = None);
          toDelete = map fst (filter beCB (DumpBackend4 env (lbmaps ops) @ DumpBackend6 env (lbmaps ops)))
      in (callAll env (map MapDeleteBackend toDelete) ops, None))"

definition pruneRevNat :: "'d env \<Rightarrow> 'd bpfOps \<Rightarrow> 'd bpfOps \<times> error option" where
  "pruneRevNat env ops =
     (case DumpRevNat env (lbmaps ops) of
        (rows, Some err) \<Rightarrow> (ops, Some err)
      | (rows, None) \<Rightarrow>
          (let cb = (\<lambda>(revNatKey, v). entitiesID (serviceIDAlloc ops) (ucast (rk_key revNatKey)) = None);
               toDelete = map fst (filter cb rows)
           in (callAll env (map DeleteRevNat toDelete) ops, None)))"

text \<open>\<^verbatim>\<open>errors.Join\<close>: nil when every argument is nil, else the non-nil ones together.\<close>

definition errors_Join :: "error option list \<Rightarrow> error option" where
  "errors_Join errs = (case List.map_filter id errs of [] \<Rightarrow> None | es \<Rightarrow> Some (Joined es))"

text \<open>Go evaluates the four arguments of \<^verbatim>\<open>errors.Join\<close> in order before the call.\<close>

definition Prune :: "'d env \<Rightarrow> 'd bpfOps \<Rightarrow> 'd bpfOps \<times> error option" where
  "Prune env ops =
     (case pruneRestoredIDs env ops of
        (ops1, e1) \<Rightarrow>
          (case pruneServiceMaps env ops1 of
             (ops2, e2) \<Rightarrow>
               (case pruneBackendMaps env ops2 of
                  (ops3, e3) \<Rightarrow>
                    (case pruneRevNat env ops3 of
                       (ops4, e4) \<Rightarrow> (ops4, errors_Join [e1, e2, e3, e4])))))"


section \<open>Invariants and example inputs\<close>

text \<open>
  The two maps of an allocator agree: an id maps to an address whose key maps back to
  the id, a key maps to an id whose address has that key, no two keys hold the same id,
  and 0 is not stored.
\<close>

definition maps_consistent ::
  "(L3n4Addr \<Rightarrow> string) \<Rightarrow> (ID \<rightharpoonup> L3n4AddrID) \<Rightarrow> (string \<rightharpoonup> ID) \<Rightarrow> bool" where
  "maps_consistent sid byID byKey =
     ((\<forall>i e. byID i = Some e \<longrightarrow> id_ID e = i \<and> byKey (sid (id_L3n4Addr e)) = Some i) \<and>
      (\<forall>k i. byKey k = Some i \<longrightarrow> (\<exists>e. byID i = Some e \<and> sid (id_L3n4Addr e) = k)) \<and>
      (\<forall>k k' i. byKey k = Some i \<and> byKey k' = Some i \<longrightarrow> k = k') \<and>
      byID 0 = None \<and>
      (\<forall>k. byKey k \<noteq> Some 0))"

definition alloc_consistent :: "(L3n4Addr \<Rightarrow> string) \<Rightarrow> idAllocator \<Rightarrow> bool" where
  "alloc_consistent sid alloc = maps_consistent sid (entitiesID alloc) (entities alloc)"

text \<open>The cursor stays within the bounds, and the bounds leave room above 0.\<close>

definition cursor_ok :: "idAllocator \<Rightarrow> bool" where
  "cursor_ok alloc =
     (0 < initNextID alloc \<and> initNextID alloc < maxID alloc \<and>
      initNextID alloc \<le> nextID alloc \<and> nextID alloc \<le> maxID alloc)"

text \<open>
  The allocator states that arise from a new allocator with \<open>0 < initNextID < maxID\<close>
  by acquiring (with no desired id, or one up to \<open>maxID\<close>), by releasing, and by adopting
  either an unused nonzero id for an address that holds none, or a binding already held.
\<close>

inductive reachable :: "(L3n4Addr \<Rightarrow> string) \<Rightarrow> idAllocator \<Rightarrow> bool" for sid where
  reach_new: "0 < nxt \<Longrightarrow> nxt < mx \<Longrightarrow> reachable sid (newIDAllocator nxt mx)"
| reach_acquire:
    "reachable sid alloc \<Longrightarrow> desiredID \<le> maxID alloc \<Longrightarrow>
     acquireLocalID sid alloc a desiredID = Some (alloc', r) \<Longrightarrow> reachable sid alloc'"
| reach_delete: "reachable sid alloc \<Longrightarrow> reachable sid (deleteLocalID sid alloc i)"
| reach_adopt:
    "reachable sid alloc \<Longrightarrow> i \<noteq> 0 \<Longrightarrow> entitiesID alloc i = None \<Longrightarrow> entities alloc (sid a) = None \<Longrightarrow>
     reachable sid (fst (addID sid alloc a i))"
| reach_readopt:
    "reachable sid alloc \<Longrightarrow> entitiesID alloc i = Some (newID a i) \<Longrightarrow> entities alloc (sid a) = Some i \<Longrightarrow>
     reachable sid (fst (addID sid alloc a i))"

text \<open>Acquiring ids for a list of addresses in turn, collecting the results.\<close>

fun acquireAll ::
  "(L3n4Addr \<Rightarrow> string) \<Rightarrow> idAllocator \<Rightarrow> L3n4Addr list \<Rightarrow> (idAllocator \<times> (error + ID) list) option" where
  "acquireAll sid alloc [] = Some (alloc, [])"
| "acquireAll sid alloc (a # rest) =
     (case acquireLocalID sid alloc a 0 of
        None \<Rightarrow> None
      | Some (alloc1, r) \<Rightarrow>
          (case acquireAll sid alloc1 rest of
             None \<Rightarrow> None
           | Some (alloc2, rs) \<Rightarrow> Some (alloc2, r # rs)))"

text \<open>
  An instance of the parameters, for the closed theorems: a canonical string made of
  the family, the address bits, the port, the protocol and the scope.
\<close>

fun bits :: "nat \<Rightarrow> string" where
  "bits n = (if n = 0 then [] else (if odd n then CHR ''1'' else CHR ''0'') # bits (n div 2))"

declare bits.simps [simp del]

definition exampleStringID :: "L3n4Addr \<Rightarrow> string" where
  "exampleStringID a =
     (case ac_addr (AddrCluster a) of
        AddrZero \<Rightarrow> ''-''
      | Addr4 w \<Rightarrow> CHR ''4'' # bits (unat w)
      | Addr6 w \<Rightarrow> CHR ''6'' # bits (unat w))
     @ CHR '':'' # bits (unat (Port a)) @ CHR ''/'' # Protocol a @ CHR ''/'' # bits (unat (Scope a))"

definition tcp4 :: "32 word \<Rightarrow> 16 word \<Rightarrow> L3n4Addr" where
  "tcp4 ip port = \<lparr>AddrCluster = AddrClusterFrom (Addr4 ip) 0, Protocol = TCP, Port = port, Scope = 0\<rparr>"

definition tcp6 :: "128 word \<Rightarrow> 16 word \<Rightarrow> L3n4Addr" where
  "tcp6 ip port = \<lparr>AddrCluster = AddrClusterFrom (Addr6 ip) 0, Protocol = TCP, Port = port, Scope = 0\<rparr>"


text \<open>The state that \<^verbatim>\<open>newBPFOps\<close> builds, over a driver state \<open>d\<close>.\<close>

definition newBPFOps :: "'d \<Rightarrow> 'd bpfOps" where
  "newBPFOps d =
     \<lparr>lbmaps = d, trace = [],
      serviceIDAlloc = newIDAllocator 1 0xFFFF, restoredServiceIDs = [],
      backendIDAlloc = newIDAllocator 1 0xFFFFFFFF, restoredBackendIDs = [],
      backendStates = Map.empty, backendReferences = Map.empty, nodePortAddrs = Map.empty\<rparr>"

text \<open>
  What the first loop of \<^verbatim>\<open>updateBackendRefCounts\<close> does to the record of an address that
  leaves the set, and what the second loop does to the record of one that enters.
\<close>

definition dropRef :: "backendState option \<Rightarrow> backendState option" where
  "dropRef r =
     (case r of
        None \<Rightarrow> None
      | Some s \<Rightarrow> Some (if bs_refCount s > 1 then s\<lparr>bs_refCount := bs_refCount s - 1\<rparr> else s))"

definition addRef :: "L3n4Addr \<Rightarrow> backendState option \<Rightarrow> backendState option" where
  "addRef a r =
     (let s = (case r of Some s \<Rightarrow> s | None \<Rightarrow> zero_backendState)
      in Some (s\<lparr>bs_addr := a, bs_refCount := bs_refCount s + 1\<rparr>))"

text \<open>
  The key that \<open>backend_less\<close> compares, in lexicographic order: the state, the bit
  length of the address, its bits, the port.
\<close>

definition sortKey :: "BackendWithRevision \<Rightarrow> nat \<times> nat \<times> nat \<times> nat" where
  "sortKey be =
     (unat (be_State be),
      BitLen (ac_addr (AddrCluster (be_L3n4Addr be))),
      addr_bits (ac_addr (AddrCluster (be_L3n4Addr be))),
      unat (Port (be_L3n4Addr be)))"

text \<open>
  A table driver without state that fails, with errno 5, on the calls that \<open>bad\<close>
  picks; empty dumps; session affinity enabled.
\<close>

definition exampleEnv :: "(dpop \<Rightarrow> bool) \<Rightarrow> unit env" where
  "exampleEnv bad =
     \<lparr>StringID = exampleStringID,
      driver = (\<lambda>op d. (d, if bad op then Some (DriverError 5) else None)),
      DumpService4 = (\<lambda>d. []),
      DumpService6 = (\<lambda>d. []),
      DumpBackend4 = (\<lambda>d. []),
      DumpBackend6 = (\<lambda>d. []),
      DumpRevNat = (\<lambda>d. ([], None)),
      EnableSessionAffinity = True,
      ExternalClusterIP = False,
      NewSvcFlag = (\<lambda>p. 0),
      IsSurrogate = (\<lambda>k. False),
      NewBackendV3 = (\<lambda>v6 i be.
         Inr (\<lparr>bk_v6 = v6, bk_id = i\<rparr>,
              \<lparr>bv_addr = keyIP (ac_addr (AddrCluster (be_L3n4Addr be))),
               bv_port = Port (be_L3n4Addr be), bv_proto = 0,
               bv_state = be_State be, bv_zone = be_ZoneID be\<rparr>))\<rparr>"

definition exampleBackend :: "32 word \<Rightarrow> 16 word \<Rightarrow> string \<Rightarrow> BackendState \<Rightarrow> BackendWithRevision" where
  "exampleBackend ip port proto st =
     \<lparr>be_L3n4Addr = \<lparr>AddrCluster = AddrClusterFrom (Addr4 ip) 0, Protocol = proto, Port = port, Scope = 0\<rparr>,
      be_State = st, be_ZoneID = 0, be_Revision = 1\<rparr>"

definition exampleState :: "L3n4Addr \<Rightarrow> int \<Rightarrow> BackendID \<Rightarrow> backendState" where
  "exampleState a n i = \<lparr>bs_addr = a, bs_revision = 1, bs_refCount = n, bs_id = i\<rparr>"

text \<open>
  Two frontends, 0.0.0.100:80 and 0.0.0.101:80; backend 0.0.0.1:8080 belongs to the
  first only, backend 0.0.0.2:8080 to both.
\<close>

definition sharedOps :: "unit bpfOps" where
  "sharedOps =
     (newBPFOps ())
       \<lparr>backendStates :=
          [tcp4 1 8080 \<mapsto> exampleState (tcp4 1 8080) 1 1, tcp4 2 8080 \<mapsto> exampleState (tcp4 2 8080) 2 2],
        backendReferences :=
          [tcp4 100 80 \<mapsto> [tcp4 1 8080, tcp4 2 8080], tcp4 101 80 \<mapsto> [tcp4 2 8080]]\<rparr>"

text \<open>A service row of an address no frontend has, and a driver whose reverse NAT dump fails.\<close>

definition staleKey :: ServiceKey where
  "staleKey = \<lparr>sk_addr = IP4 9, sk_port = 80, sk_proto = 0, sk_scope = 0, sk_slot = 0\<rparr>"

definition pruneEnv :: "unit env" where
  "pruneEnv =
     (exampleEnv (\<lambda>op. False))
       \<lparr>DumpService4 := (\<lambda>d. [(staleKey, zeroServiceValue False)]),
        DumpRevNat := (\<lambda>d. ([], Some (DriverError 5)))\<rparr>"

text \<open>The in-memory bookkeeping of the reconciler: all but the driver state and the trace.\<close>

definition book ::
  "'d bpfOps \<Rightarrow> idAllocator \<times> ID list \<times> idAllocator \<times> BackendID list \<times>
     (L3n4Addr \<rightharpoonup> backendState) \<times> (L3n4Addr \<rightharpoonup> L3n4Addr list) \<times> (16 word \<rightharpoonup> netip_Addr list)" where
  "book ops =
     (serviceIDAlloc ops, restoredServiceIDs ops, backendIDAlloc ops, restoredBackendIDs ops,
      backendStates ops, backendReferences ops, nodePortAddrs ops)"

definition exampleService :: Service where
  "exampleService =
     \<lparr>ExtTrafficPolicy = SVCTrafficPolicyCluster, IntTrafficPolicy = SVCTrafficPolicyCluster,
      NatPolicy = SVCNatPolicyNone, SessionAffinity = False, SessionAffinityTimeoutSec = 0,
      L7ProxyPort = 0, LoopbackHostPort = False\<rparr>"

definition exampleFrontend :: "L3n4Addr \<Rightarrow> SVCType \<Rightarrow> BackendWithRevision list \<Rightarrow> netip_Addr list \<Rightarrow> Frontend" where
  "exampleFrontend a t bes nodes =
     \<lparr>fe_Address = a, fe_Type = t, fe_Backends = bes, fe_nodePortAddrs = nodes, fe_Service = exampleService\<rparr>"

fun isUpdateRevNat :: "dpop \<Rightarrow> bool" where
  "isUpdateRevNat (UpdateRevNat _ _) = True"
| "isUpdateRevNat _ = False"

text \<open>The key \<open>k\<close> holds an id: the first lookup of \<^verbatim>\<open>acquireLocalID\<close> returns \<open>i\<close>.\<close>

definition held :: "idAllocator \<Rightarrow> string \<Rightarrow> ID \<Rightarrow> bool" where
  "held alloc k i = (\<exists>j e. entities alloc k = Some j \<and> entitiesID alloc j = Some e \<and> id_ID e = i)"

text \<open>The calls that write or delete a row of a backend table.\<close>

fun isBackendWrite :: "dpop \<Rightarrow> bool" where
  "isBackendWrite (UpdateBackend _ _) = True"
| "isBackendWrite (SilentDeleteBackend _) = True"
| "isBackendWrite (MapDeleteBackend _) = True"
| "isBackendWrite _ = False"

text \<open>From \<open>ops\<close> to \<open>ops'\<close> the trace grows by calls that all satisfy \<open>P\<close>.\<close>

definition issues :: "(dpop \<Rightarrow> bool) \<Rightarrow> 'd bpfOps \<Rightarrow> 'd bpfOps \<Rightarrow> bool" where
  "issues P ops ops' = (\<exists>l. trace ops' = trace ops @ l \<and> list_all P l)"

definition reliable :: "'d env \<Rightarrow> bool" where
  "reliable env = (\<forall>op d. snd (driver env op d) = None)"

definition revOf :: "'d bpfOps \<Rightarrow> L3n4Addr \<Rightarrow> Revision" where
  "revOf ops a = bs_revision (stateOf (backendStates ops) a)"

text \<open>The loop over the backends finds an id for \<open>a\<close> without allocating.\<close>

definition avail :: "'d env \<Rightarrow> 'd bpfOps \<Rightarrow> L3n4Addr \<Rightarrow> bool" where
  "avail env ops a =
     (bs_id (stateOf (backendStates ops) a) \<noteq> 0 \<or> (\<exists>i. held (backendIDAlloc ops) (StringID env a) i))"

definition settled :: "'d env \<Rightarrow> 'd bpfOps \<Rightarrow> BackendWithRevision list \<Rightarrow> bool" where
  "settled env ops bes =
     (\<forall>be \<in> set bes. avail env ops (be_L3n4Addr be) \<and> be_Revision be \<le> revOf ops (be_L3n4Addr be))"

definition quiet :: "dpop \<Rightarrow> bool" where
  "quiet op = (\<not> isBackendWrite op)"

text \<open>From \<open>ops\<close> to \<open>ops'\<close> the service ids are kept, no revision goes down, and an
  address whose id was at hand still has it at hand.\<close>

definition grows :: "'d env \<Rightarrow> 'd bpfOps \<Rightarrow> 'd bpfOps \<Rightarrow> bool" where
  "grows env ops ops' =
     (serviceIDAlloc ops' = serviceIDAlloc ops \<and>
      (\<forall>a. revOf ops a \<le> revOf ops' a) \<and>
      (\<forall>a. avail env ops a \<longrightarrow> avail env ops' a))"

text \<open>Two maps of records agree on the revision and the id of every address.\<close>

definition sameRevID :: "(L3n4Addr \<rightharpoonup> backendState) \<Rightarrow> (L3n4Addr \<rightharpoonup> backendState) \<Rightarrow> bool" where
  "sameRevID st st' =
     (\<forall>a. bs_revision (stateOf st' a) = bs_revision (stateOf st a) \<and>
          bs_id (stateOf st' a) = bs_id (stateOf st a))"


definition okEnv :: "unit env" where
  "okEnv = exampleEnv (\<lambda>op. False)"

text \<open>
  A dual-stack NodePort service: one frontend per family on port 30000, each given both
  node addresses, 0.0.0.10 and ::1.
\<close>

definition nodePortV4 :: Frontend where
  "nodePortV4 = exampleFrontend (tcp4 0 30000) SVCTypeNodePort [] [Addr4 10, Addr6 1]"

definition nodePortV6 :: Frontend where
  "nodePortV6 = exampleFrontend (tcp6 0 30000) SVCTypeNodePort [] [Addr4 10, Addr6 1]"

text \<open>\<open>Update\<close> for each frontend of a list, then \<open>Delete\<close>: the states before and after the \<open>Delete\<close>.\<close>

definition deleteAfterUpdates ::
  "'d env \<Rightarrow> Frontend list \<Rightarrow> Frontend \<Rightarrow> 'd bpfOps \<Rightarrow> ('d bpfOps \<times> 'd bpfOps \<times> error option) option" where
  "deleteAfterUpdates env fes fe ops =
     (case fold (\<lambda>f r. case r of Some (s, None) \<Rightarrow> Update env f s | _ \<Rightarrow> None) fes (Some (ops, None)) of
        Some (s, None) \<Rightarrow> (case Delete env fe s of (s', e) \<Rightarrow> Some (s, s', e))
      | _ \<Rightarrow> None)"

text \<open>Of the calls that delete a backend row, only those for the records \<open>os\<close>.\<close>

definition deletesOnly :: "backendState list \<Rightarrow> dpop \<Rightarrow> bool" where
  "deletesOnly os op =
     (\<forall>k. op = SilentDeleteBackend k \<longrightarrow>
        (\<exists>s \<in> set os. k = \<lparr>bk_v6 = IsIPv6 (bs_addr s), bk_id = bs_id s\<rparr>))"

text \<open>
  The frontend of address \<open>a\<close> with the sorted backends \<open>bes\<close> is reconciled: it has a
  service id that does not vanish as a reverse NAT key, its membership is the set of
  \<open>bes\<close>, and no backend of \<open>bes\<close> is stale or without an id at hand.
\<close>

definition reconciledAt :: "'d env \<Rightarrow> 'd bpfOps \<Rightarrow> L3n4Addr \<Rightarrow> BackendWithRevision list \<Rightarrow> bool" where
  "reconciledAt env ops a bes =
     ((\<exists>feID. held (serviceIDAlloc ops) (StringID env a) feID \<and> (ucast feID :: 16 word) \<noteq> 0) \<and>
      backendReferences ops a = Some (backendAddrsOf bes) \<and>
      settled env ops bes)"


text \<open>
  \<open>fe'\<close> is \<open>fe\<close> after some rounds of the first loop of \<^verbatim>\<open>Update\<close>: cloned, its address
  replaced by node addresses of its family, its backends sorted.
\<close>

definition cloneOf :: "Frontend \<Rightarrow> Frontend \<Rightarrow> bool" where
  "cloneOf fe fe' =
     (fe_nodePortAddrs fe' = fe_nodePortAddrs fe \<and>
      sortedBackends (fe_Backends fe') = sortedBackends (fe_Backends fe) \<and>
      IsIPv6 (fe_Address fe') = IsIPv6 (fe_Address fe) \<and>
      Port (fe_Address fe') = Port (fe_Address fe) \<and>
      (\<forall>c. (fe_Address fe')\<lparr>AddrCluster := c\<rparr> = (fe_Address fe)\<lparr>AddrCluster := c\<rparr>))"







text \<open>
  A sequence of reconciliations, each with the driver of its own moment: the state it
  ends in and the result of each \<open>Update\<close>. An \<open>Update\<close> that fails is retried later;
  meanwhile other frontends are reconciled.
\<close>

fun runUpdates :: "('d env \<times> Frontend) list \<Rightarrow> 'd bpfOps \<Rightarrow> ('d bpfOps \<times> error option list) option" where
  "runUpdates [] ops = Some (ops, [])"
| "runUpdates ((env, fe) # rest) ops =
     (case Update env fe ops of
        None \<Rightarrow> None
      | Some (ops1, e) \<Rightarrow> map_option (\<lambda>(s, es). (s, e # es)) (runUpdates rest ops1))"

text \<open>
  The reconciliations \<open>prior\<close>, then \<open>Update fe\<close>: the results of the former, the states
  before and after the latter, and its result.
\<close>

definition updateAfter ::
  "('d env \<times> Frontend) list \<Rightarrow> 'd env \<Rightarrow> Frontend \<Rightarrow> 'd bpfOps
   \<Rightarrow> (error option list \<times> 'd bpfOps \<times> 'd bpfOps \<times> error option) option" where
  "updateAfter prior env fe ops =
     (case runUpdates prior ops of
        None \<Rightarrow> None
      | Some (s, es) \<Rightarrow>
          (case Update env fe s of
             None \<Rightarrow> None
           | Some (s', e) \<Rightarrow> Some (es, s, s', e)))"

text \<open>The calls that write the slot of a backend (slot 0 is the master).\<close>

fun isSlotWrite :: "dpop \<Rightarrow> bool" where
  "isSlotWrite (UpdateService k v) = (sk_slot k \<noteq> 0)"
| "isSlotWrite _ = False"

text \<open>Two ClusterIP frontends, 0.0.0.100:80 and 0.0.0.101:80, with the backends \<open>bes\<close>.\<close>

definition frontendX :: "BackendWithRevision list \<Rightarrow> Frontend" where
  "frontendX bes = exampleFrontend (tcp4 100 80) SVCTypeClusterIP bes []"

definition frontendY :: "BackendWithRevision list \<Rightarrow> Frontend" where
  "frontendY bes = exampleFrontend (tcp4 101 80) SVCTypeClusterIP bes []"

text \<open>An active TCP backend in the cluster \<open>c\<close>.\<close>

definition backendInCluster :: "32 word \<Rightarrow> 32 word \<Rightarrow> 16 word \<Rightarrow> BackendWithRevision" where
  "backendInCluster c ip port =
     \<lparr>be_L3n4Addr = \<lparr>AddrCluster = AddrClusterFrom (Addr4 ip) c, Protocol = TCP, Port = port, Scope = 0\<rparr>,
      be_State = BackendStateActive, be_ZoneID = 0, be_Revision = 1\<rparr>"

section \<open>Properties of the allocator\<close>

lemmas example_simps = exampleStringID_def tcp4_def tcp6_def AddrClusterFrom_def TCP_def bits.simps

lemmas allocator_simps =
  acquireLocalID_def newIDAllocator_def scanID.simps addID_def deleteLocalID_def newID_def
  lookupLocalID_def

lemma alloc_consistent_nextID [simp]:
  "alloc_consistent sid (alloc\<lparr>nextID := n\<rparr>) = alloc_consistent sid alloc"
  by (simp add: alloc_consistent_def)

lemma alloc_consistent_new: "alloc_consistent sid (newIDAllocator nxt mx)"
  by (simp add: alloc_consistent_def maps_consistent_def newIDAllocator_def)

lemma consistentD1:
  "alloc_consistent sid alloc \<Longrightarrow> entitiesID alloc i = Some e \<Longrightarrow>
   id_ID e = i \<and> entities alloc (sid (id_L3n4Addr e)) = Some i"
  by (simp add: alloc_consistent_def maps_consistent_def)

lemma consistentD2:
  "alloc_consistent sid alloc \<Longrightarrow> entities alloc k = Some i \<Longrightarrow>
   \<exists>e. entitiesID alloc i = Some e \<and> sid (id_L3n4Addr e) = k"
  by (simp add: alloc_consistent_def maps_consistent_def)

lemma consistentD3:
  "alloc_consistent sid alloc \<Longrightarrow> entities alloc k = Some i \<Longrightarrow> entities alloc k' = Some i \<Longrightarrow> k = k'"
  unfolding alloc_consistent_def maps_consistent_def by blast

lemma consistentD4: "alloc_consistent sid alloc \<Longrightarrow> entitiesID alloc 0 = None"
  by (simp add: alloc_consistent_def maps_consistent_def)

lemma consistentD5: "alloc_consistent sid alloc \<Longrightarrow> entities alloc k \<noteq> Some 0"
  by (simp add: alloc_consistent_def maps_consistent_def)

lemma alloc_consistent_addID:
  assumes inv: "alloc_consistent sid alloc" and nz: "i \<noteq> 0"
    and free: "entitiesID alloc i = None" and nokey: "entities alloc (sid a) = None"
  shows "alloc_consistent sid (fst (addID sid alloc a i))"
proof -
  let ?eid = "(entitiesID alloc)(i \<mapsto> newID a i)"
  let ?ent = "(entities alloc)(sid a \<mapsto> i)"
  have unused: "entities alloc k \<noteq> Some i" for k
    using consistentD2 [OF inv, of k i] free by auto
  have c1: "id_ID e = j \<and> ?ent (sid (id_L3n4Addr e)) = Some j" if "?eid j = Some e" for j e
  proof (cases "j = i")
    case True
    with that show ?thesis by (auto simp: newID_def)
  next
    case False
    with that have old: "entitiesID alloc j = Some e" by simp
    from consistentD1 [OF inv old] nokey show ?thesis by auto
  qed
  have c2: "\<exists>e. ?eid j = Some e \<and> sid (id_L3n4Addr e) = k" if "?ent k = Some j" for k j
  proof (cases "k = sid a")
    case True
    with that show ?thesis by (auto simp: newID_def)
  next
    case False
    with that have old: "entities alloc k = Some j" by simp
    with unused have "j \<noteq> i" by auto
    with consistentD2 [OF inv old] show ?thesis by auto
  qed
  have c3: "k = k'" if "?ent k = Some j" "?ent k' = Some j" for k k' j
    using that unused consistentD3 [OF inv, of k j k'] by (auto split: if_splits)
  have c4: "?eid 0 = None"
    using nz consistentD4 [OF inv] by simp
  have c5: "?ent k \<noteq> Some 0" for k
    using nz consistentD5 [OF inv, of k] by auto
  have "maps_consistent sid ?eid ?ent"
    unfolding maps_consistent_def using c1 c2 c3 c4 c5 by blast
  then show ?thesis
    by (simp add: alloc_consistent_def addID_def)
qed

lemma alloc_consistent_deleteLocalID:
  assumes inv: "alloc_consistent sid alloc"
  shows "alloc_consistent sid (deleteLocalID sid alloc i)"
proof (cases "entitiesID alloc i")
  case None
  then show ?thesis using inv by (simp add: deleteLocalID_def)
next
  case (Some e)
  let ?eid = "(entitiesID alloc)(i := None)"
  let ?ent = "(entities alloc)(sid (id_L3n4Addr e) := None)"
  from consistentD1 [OF inv Some] have e: "id_ID e = i" "entities alloc (sid (id_L3n4Addr e)) = Some i"
    by auto
  have c1: "id_ID e' = j \<and> ?ent (sid (id_L3n4Addr e')) = Some j" if "?eid j = Some e'" for j e'
  proof -
    from that have ji: "j \<noteq> i" and old: "entitiesID alloc j = Some e'" by (auto split: if_splits)
    from consistentD1 [OF inv old] have "id_ID e' = j" "entities alloc (sid (id_L3n4Addr e')) = Some j" by auto
    moreover have "sid (id_L3n4Addr e') \<noteq> sid (id_L3n4Addr e)"
      using calculation e ji by auto
    ultimately show ?thesis by simp
  qed
  have c2: "\<exists>e'. ?eid j = Some e' \<and> sid (id_L3n4Addr e') = k" if "?ent k = Some j" for k j
  proof -
    from that have kk: "k \<noteq> sid (id_L3n4Addr e)" and old: "entities alloc k = Some j"
      by (auto split: if_splits)
    have "j \<noteq> i" using consistentD3 [OF inv old, of "sid (id_L3n4Addr e)"] e kk by auto
    with consistentD2 [OF inv old] show ?thesis by auto
  qed
  have c3: "k = k'" if "?ent k = Some j" "?ent k' = Some j" for k k' j
    using that consistentD3 [OF inv, of k j k'] by (auto split: if_splits)
  have c4: "?eid 0 = None"
    using consistentD4 [OF inv] by simp
  have c5: "?ent k \<noteq> Some 0" for k
    using consistentD5 [OF inv, of k] by auto
  have "maps_consistent sid ?eid ?ent"
    unfolding maps_consistent_def using c1 c2 c3 c4 c5 by blast
  then show ?thesis
    by (simp add: alloc_consistent_def deleteLocalID_def Some)
qed

lemma word_cursor_step:
  fixes n :: ID
  assumes "lo \<le> n" "n < hi"
  shows "lo \<le> n + 1 \<and> n + 1 \<le> hi"
  using assms by unat_arith


lemma cursor_ok_wrap:
  assumes "cursor_ok alloc"
  shows "cursor_ok (if nextID alloc = maxID alloc then alloc\<lparr>nextID := initNextID alloc\<rparr> else alloc)"
    and "nextID (if nextID alloc = maxID alloc then alloc\<lparr>nextID := initNextID alloc\<rparr> else alloc)
           < maxID alloc"
  using assms by (auto simp: cursor_ok_def)

lemma cursor_ok_step:
  assumes "cursor_ok alloc" "nextID alloc < maxID alloc"
  shows "cursor_ok (alloc\<lparr>nextID := nextID alloc + 1\<rparr>)"
  using assms word_cursor_step [of "initNextID alloc" "nextID alloc" "maxID alloc"]
  by (simp add: cursor_ok_def)

lemma addID_fields [simp]:
  "nextID (fst (addID sid alloc a i)) = nextID alloc"
  "maxID (fst (addID sid alloc a i)) = maxID alloc"
  "initNextID (fst (addID sid alloc a i)) = initNextID alloc"
  "snd (addID sid alloc a i) = i"
  by (simp_all add: addID_def)

lemma cursor_ok_addID [simp]: "cursor_ok (fst (addID sid alloc a i)) = cursor_ok alloc"
  by (simp add: cursor_ok_def)

lemma cursor_ok_deleteLocalID [simp]: "cursor_ok (deleteLocalID sid alloc i) = cursor_ok alloc"
  by (simp add: cursor_ok_def deleteLocalID_def split: option.splits)

lemma cursor_nonzero: "cursor_ok alloc \<Longrightarrow> nextID alloc \<noteq> 0"
  unfolding cursor_ok_def by unat_arith

lemma scanID_preserves:
  assumes ret: "scanID sid alloc svc startingID rollover = Some y"
  shows "alloc_consistent sid alloc \<longrightarrow> cursor_ok alloc \<longrightarrow> entities alloc (sid svc) = None \<longrightarrow>
         alloc_consistent sid (fst y) \<and> cursor_ok (fst y)"
proof (rule scanID.raw_induct
    [where P = "\<lambda>sid alloc svc startingID rollover y.
        alloc_consistent sid alloc \<longrightarrow> cursor_ok alloc \<longrightarrow> entities alloc (sid svc) = None \<longrightarrow>
        alloc_consistent sid (fst y) \<and> cursor_ok (fst y)", OF _ ret])
  fix scan :: "(L3n4Addr \<Rightarrow> string) \<Rightarrow> idAllocator \<Rightarrow> L3n4Addr \<Rightarrow> ID \<Rightarrow> bool
               \<Rightarrow> (idAllocator \<times> (error + ID)) option"
  fix sid alloc svc startingID rollover y
  assume IH: "\<And>sid alloc svc startingID rollover y.
      scan sid alloc svc startingID rollover = Some y \<Longrightarrow>
      alloc_consistent sid alloc \<longrightarrow> cursor_ok alloc \<longrightarrow> entities alloc (sid svc) = None \<longrightarrow>
      alloc_consistent sid (fst y) \<and> cursor_ok (fst y)"
  assume body: "(if nextID alloc = startingID \<and> rollover then Some (alloc, Inl ErrNoIDAvailable)
      else let wrap = nextID alloc = maxID alloc;
               alloc1 = if wrap then alloc\<lparr>nextID := initNextID alloc\<rparr> else alloc;
               rollover1 = rollover \<or> wrap
           in if entitiesID alloc1 (nextID alloc1) = None
              then case addID sid alloc1 svc (nextID alloc1) of
                   (alloc2, svcID) \<Rightarrow> Some (alloc2\<lparr>nextID := nextID alloc2 + 1\<rparr>, Inr svcID)
              else scan sid (alloc1\<lparr>nextID := nextID alloc1 + 1\<rparr>) svc startingID rollover1) = Some y"
  show "alloc_consistent sid alloc \<longrightarrow> cursor_ok alloc \<longrightarrow> entities alloc (sid svc) = None \<longrightarrow>
        alloc_consistent sid (fst y) \<and> cursor_ok (fst y)"
  proof (intro impI)
    assume inv: "alloc_consistent sid alloc" and cur: "cursor_ok alloc"
      and nokey: "entities alloc (sid svc) = None"
    define alloc1 where "alloc1 = (if nextID alloc = maxID alloc then alloc\<lparr>nextID := initNextID alloc\<rparr> else alloc)"
    have cur1: "cursor_ok alloc1" and lt1: "nextID alloc1 < maxID alloc1"
      using cursor_ok_wrap [OF cur] by (auto simp: alloc1_def)
    have inv1: "alloc_consistent sid alloc1" and nokey1: "entities alloc1 (sid svc) = None"
      using inv nokey by (auto simp: alloc1_def)
    show "alloc_consistent sid (fst y) \<and> cursor_ok (fst y)"
    proof (cases "nextID alloc = startingID \<and> rollover")
      case True
      with body have "y = (alloc, Inl ErrNoIDAvailable)" by simp
      with inv cur show ?thesis by simp
    next
      case False
      show ?thesis
      proof (cases "entitiesID alloc1 (nextID alloc1) = None")
        case True
        with False body have y: "fst y = (fst (addID sid alloc1 svc (nextID alloc1)))\<lparr>nextID := nextID alloc1 + 1\<rparr>"
          by (auto simp: Let_def alloc1_def [symmetric] addID_def)
        have "alloc_consistent sid (fst (addID sid alloc1 svc (nextID alloc1)))"
          using alloc_consistent_addID [OF inv1 cursor_nonzero [OF cur1] True nokey1] .
        moreover have "cursor_ok ((fst (addID sid alloc1 svc (nextID alloc1)))\<lparr>nextID := nextID alloc1 + 1\<rparr>)"
          using cursor_ok_step [of "fst (addID sid alloc1 svc (nextID alloc1))"] cur1 lt1 by simp
        ultimately show ?thesis by (simp add: y)
      next
        case occupied: False
        with False body have rec: "scan sid (alloc1\<lparr>nextID := nextID alloc1 + 1\<rparr>) svc startingID
              (rollover \<or> nextID alloc = maxID alloc) = Some y"
          by (auto simp: Let_def alloc1_def [symmetric])
        have "cursor_ok (alloc1\<lparr>nextID := nextID alloc1 + 1\<rparr>)"
          using cursor_ok_step [OF cur1 lt1] .
        with IH [OF rec] inv1 nokey1 show ?thesis by simp
      qed
    qed
  qed
qed

lemma acquireLocalID_preserves:
  assumes acq: "acquireLocalID sid alloc a d = Some (alloc', r)"
    and inv: "alloc_consistent sid alloc" and cur: "cursor_ok alloc" and d: "d \<le> maxID alloc"
  shows "alloc_consistent sid alloc' \<and> cursor_ok alloc'"
proof (cases "case entities alloc (sid a) of None \<Rightarrow> None | Some svcID \<Rightarrow> entitiesID alloc svcID")
  case (Some found)
  with acq have "alloc' = alloc" by (simp add: acquireLocalID_def)
  with inv cur show ?thesis by simp
next
  case None
  have nokey: "entities alloc (sid a) = None"
  proof (cases "entities alloc (sid a)")
    case (Some i)
    with consistentD2 [OF inv Some] None show ?thesis by auto
  qed simp
  show ?thesis
  proof (cases "d = 0")
    case True
    with acq None have "scanID sid alloc a (nextID alloc) False = Some (alloc', r)"
      by (simp add: acquireLocalID_def)
    from scanID_preserves [OF this] inv cur nokey show ?thesis by simp
  next
    case dnz: False
    show ?thesis
    proof (cases "entitiesID alloc d")
      case (Some foundSVC)
      with acq None dnz have "alloc' = alloc" by (simp add: acquireLocalID_def)
      with inv cur show ?thesis by simp
    next
      case free: None
      define alloc1 where "alloc1 = (if d \<ge> nextID alloc then alloc\<lparr>nextID := d\<rparr> else alloc)"
      from acq None dnz free have a': "alloc' = fst (addID sid alloc1 a d)"
        by (auto simp: acquireLocalID_def alloc1_def split: prod.splits)
      have inv1: "alloc_consistent sid alloc1" "entitiesID alloc1 d = None" "entities alloc1 (sid a) = None"
        using inv free nokey by (auto simp: alloc1_def)
      have "cursor_ok alloc1" using cur d by (auto simp: alloc1_def cursor_ok_def)
      with alloc_consistent_addID [OF inv1(1) dnz inv1(2,3)] show ?thesis by (simp add: a')
    qed
  qed
qed

lemma addID_held_binding:
  assumes "entitiesID alloc i = Some (newID a i)" "entities alloc (sid a) = Some i"
  shows "fst (addID sid alloc a i) = alloc"
proof -
  have "(entitiesID alloc)(i \<mapsto> newID a i) = entitiesID alloc"
    using assms(1) by (simp add: fun_upd_idem)
  moreover have "(entities alloc)(sid a \<mapsto> i) = entities alloc"
    using assms(2) by (simp add: fun_upd_idem)
  ultimately show ?thesis by (simp add: addID_def)
qed

lemma reachable_invariants:
  assumes "reachable sid alloc"
  shows "alloc_consistent sid alloc \<and> cursor_ok alloc"
  using assms
proof (induction rule: reachable.induct)
  case (reach_new nxt mx)
  then show ?case
    by (simp add: alloc_consistent_new) (simp add: cursor_ok_def newIDAllocator_def)
next
  case (reach_acquire alloc desiredID a alloc' r)
  then show ?case
    using acquireLocalID_preserves [of sid alloc a desiredID alloc' r] by simp
next
  case (reach_delete alloc i)
  then show ?case
    by (simp add: alloc_consistent_deleteLocalID)
next
  case (reach_adopt alloc i a)
  then show ?case
    by (simp add: alloc_consistent_addID)
next
  case (reach_readopt alloc i a)
  then show ?case
    by (simp add: addID_held_binding)
qed

text \<open>
  C6. After \<open>addID a i\<close>, \<open>acquireLocalID a 0\<close> returns \<open>i\<close> and leaves the allocator as
  it is: the adopted id is reused. This holds in every allocator state and for every \<open>i\<close>.
\<close>

theorem adopted_id_is_reused:
  "acquireLocalID sid (fst (addID sid alloc a i)) a 0 = Some (fst (addID sid alloc a i), Inr i)"
  by (simp add: acquireLocalID_def addID_def newID_def)

theorem adopted_id_is_reused_witness:
  "map_option snd
     (acquireLocalID exampleStringID (fst (addID exampleStringID (newIDAllocator 1 65535) (tcp4 1 80) 7))
        (tcp4 1 80) 0) = Some (Inr 7)"
  using adopted_id_is_reused [of exampleStringID "newIDAllocator 1 65535" "tcp4 1 80" 7]
  by simp

text \<open>
  C2. An allocator with bounds 1 and 3 has \<open>maxID - initNextID + 1 = 3\<close> ids, yet the third
  of three distinct addresses gets "no service ID available" while id 3 is still free:
  the scan wraps when the cursor equals \<open>maxID\<close>, before it has looked at that slot.
  The second half of the claim holds there: once ids 1 and 2 are taken, releasing id 1
  and acquiring for a new address returns 1 again.
\<close>

theorem third_of_three_ids_unavailable:
  "map_option (\<lambda>(alloc, rs). (rs, entitiesID alloc 3))
     (acquireAll exampleStringID (newIDAllocator 1 3) [tcp4 1 80, tcp4 2 80, tcp4 3 80])
   = Some ([Inr 1, Inr 2, Inl ErrNoIDAvailable], None) \<and>
   map_option snd
     (case acquireAll exampleStringID (newIDAllocator 1 3) [tcp4 1 80, tcp4 2 80] of
        None \<Rightarrow> None
      | Some (alloc, rs) \<Rightarrow>
          acquireLocalID exampleStringID (deleteLocalID exampleStringID alloc 1) (tcp4 3 80) 0)
   = Some (Inr 1)"
  by (simp add: example_simps allocator_simps cong: option.case_cong_weak prod.case_cong_weak)

text \<open>
  C9, as amended. Every allocator state reachable from a new allocator with
  \<open>0 < initNextID < maxID\<close> by \<open>acquireLocalID\<close> (desired id at most \<open>maxID\<close>),
  \<open>deleteLocalID\<close> and the adoption by \<open>addID\<close> of an unused nonzero id for an address that
  holds none (or of a binding already held) has consistent maps, no id shared by two
  keys, and no id 0.
\<close>

theorem reachable_allocator_consistent:
  "reachable sid alloc \<Longrightarrow> alloc_consistent sid alloc"
  using reachable_invariants [of sid alloc] by simp

theorem reachable_allocator_consistent_witness:
  "alloc_consistent exampleStringID
     (deleteLocalID exampleStringID (fst (addID exampleStringID (newIDAllocator 1 65535) (tcp4 1 80) 7)) 7)"
proof -
  have "reachable exampleStringID (newIDAllocator 1 65535)"
    by (rule reach_new) simp_all
  then have "reachable exampleStringID (fst (addID exampleStringID (newIDAllocator 1 65535) (tcp4 1 80) 7))"
    by (rule reach_adopt) (simp_all add: newIDAllocator_def)
  then have "reachable exampleStringID
     (deleteLocalID exampleStringID (fst (addID exampleStringID (newIDAllocator 1 65535) (tcp4 1 80) 7)) 7)"
    by (rule reach_delete)
  then show ?thesis
    by (rule reachable_allocator_consistent)
qed

text \<open>
  C9 as stated fails for \<open>addID\<close>: adopting id 7 for a second address leaves the key of
  the first address pointing at an id that now belongs to the second.
\<close>

theorem addID_breaks_consistency:
  "alloc_consistent exampleStringID (fst (addID exampleStringID (newIDAllocator 1 65535) (tcp4 1 80) 7)) \<and>
   \<not> alloc_consistent exampleStringID
       (fst (addID exampleStringID
               (fst (addID exampleStringID (newIDAllocator 1 65535) (tcp4 1 80) 7)) (tcp4 2 80) 7))"
proof
  show "alloc_consistent exampleStringID (fst (addID exampleStringID (newIDAllocator 1 65535) (tcp4 1 80) 7))"
    by (rule alloc_consistent_addID [OF alloc_consistent_new]) (simp_all add: newIDAllocator_def)
next
  let ?s = "fst (addID exampleStringID
               (fst (addID exampleStringID (newIDAllocator 1 65535) (tcp4 1 80) 7)) (tcp4 2 80) 7)"
  have key: "entities ?s (exampleStringID (tcp4 1 80)) = Some 7"
    by (simp add: example_simps allocator_simps)
  have own: "entitiesID ?s 7 = Some (newID (tcp4 2 80) 7)"
    by (simp add: allocator_simps)
  have ne: "exampleStringID (tcp4 2 80) \<noteq> exampleStringID (tcp4 1 80)"
    by (simp add: example_simps)
  show "\<not> alloc_consistent exampleStringID ?s"
  proof
    assume "alloc_consistent exampleStringID ?s"
    from consistentD2 [OF this key] own ne show False
      by (simp add: newID_def)
  qed
qed


section \<open>Properties of the backend registry\<close>

lemmas registry_simps =
  sharedOps_def newBPFOps_def exampleState_def updateReferences_def updateBackendRefCounts_def
  orphanBackends_def refsOf_def stateOf_def set_Has_def set_Delete_def dropRef_def addRef_def
  zero_backendState_def

lemma orphanLoop_set:
  "set (orphanLoop states backends oldRefs) =
     {s. \<exists>a \<in> set oldRefs. a \<notin> set backends \<and> states a = Some s \<and> bs_refCount s \<le> 1}"
  by (induction oldRefs) (auto simp: set_Has_def split: option.splits)

lemma decreaseRefs_result:
  assumes "distinct oldRefs"
  shows "decreaseRefs oldRefs newRefs states =
           (filter (\<lambda>x. x \<notin> set oldRefs) newRefs,
            (\<lambda>a. if a \<in> set oldRefs \<and> a \<notin> set newRefs then dropRef (states a) else states a))"
  using assms
proof (induction oldRefs arbitrary: newRefs states)
  case Nil
  then show ?case by simp
next
  case (Cons a oldRefs)
  from Cons.prems have na: "a \<notin> set oldRefs" and d: "distinct oldRefs" by auto
  show ?case
  proof (cases "a \<in> set newRefs")
    case True
    have f: "filter (\<lambda>x. x \<notin> set oldRefs) (removeAll a newRefs) = filter (\<lambda>x. x \<notin> set (a # oldRefs)) newRefs"
      by (induction newRefs) auto
    show ?thesis
      using True na by (auto simp: set_Has_def set_Delete_def Cons.IH [OF d] f)
  next
    case False
    have f: "filter (\<lambda>x. x \<notin> set oldRefs) newRefs = filter (\<lambda>x. x \<notin> set (a # oldRefs)) newRefs"
      using False by (induction newRefs) auto
    show ?thesis
      using False na
      by (auto simp: set_Has_def Cons.IH [OF d] f dropRef_def fun_eq_iff split: option.splits)
  qed
qed

lemma increaseRefs_result:
  assumes "distinct newRefs"
  shows "increaseRefs newRefs states = (\<lambda>a. if a \<in> set newRefs then addRef a (states a) else states a)"
  using assms
proof (induction newRefs arbitrary: states)
  case Nil
  then show ?case by simp
next
  case (Cons a newRefs)
  then show ?case
    by (auto simp: fun_eq_iff addRef_def stateOf_def Let_def split: option.splits)
qed

text \<open>
  C5, as amended. \<open>updateReferences fa newSet\<close> replaces the membership of \<open>fa\<close> by
  \<open>newSet\<close>; the record of an address that leaves the set stays, with its reference
  count lowered by one only when it is greater than 1; the record of an address that
  enters the set has its count raised by one, and is created if absent; every other
  record is as before.
\<close>

theorem updateReferences_delta:
  assumes "distinct (refsOf (backendReferences ops) fa)" and "distinct newSet"
  shows "backendReferences (updateReferences ops fa newSet) = (backendReferences ops)(fa \<mapsto> newSet) \<and>
         (\<forall>a. backendStates (updateReferences ops fa newSet) a =
                (if a \<in> set (refsOf (backendReferences ops) fa) \<and> a \<notin> set newSet
                 then dropRef (backendStates ops a)
                 else if a \<in> set newSet \<and> a \<notin> set (refsOf (backendReferences ops) fa)
                 then addRef a (backendStates ops a)
                 else backendStates ops a))"
proof (cases "backendReferences ops fa")
  case None
  then show ?thesis
    using assms by (simp add: updateReferences_def updateBackendRefCounts_def refsOf_def increaseRefs_result)
next
  case (Some oldRefs)
  with assms have d: "distinct oldRefs" by (simp add: refsOf_def)
  have d2: "distinct (filter (\<lambda>x. x \<notin> set oldRefs) newSet)"
    using assms(2) by simp
  show ?thesis
    using Some
    by (simp add: updateReferences_def updateBackendRefCounts_def refsOf_def
        decreaseRefs_result [OF d] increaseRefs_result [OF d2])
qed

theorem updateReferences_delta_witness:
  "backendReferences (updateReferences sharedOps (tcp4 100 80) [tcp4 3 8080]) (tcp4 100 80) = Some [tcp4 3 8080] \<and>
   map_option bs_refCount (backendStates (updateReferences sharedOps (tcp4 100 80) [tcp4 3 8080]) (tcp4 2 8080)) = Some 1 \<and>
   map_option bs_refCount (backendStates (updateReferences sharedOps (tcp4 100 80) [tcp4 3 8080]) (tcp4 3 8080)) = Some 1"
proof -
  have d: "distinct (refsOf (backendReferences sharedOps) (tcp4 100 80))" "distinct [tcp4 3 8080]"
    by (simp_all add: sharedOps_def newBPFOps_def refsOf_def tcp4_def AddrClusterFrom_def)
  show ?thesis
    using updateReferences_delta [OF d]
    by (simp add: sharedOps_def newBPFOps_def refsOf_def tcp4_def AddrClusterFrom_def dropRef_def addRef_def
        exampleState_def zero_backendState_def)
qed

text \<open>
  C5 as stated fails: the backend that leaves the set with a reference count of 1 keeps
  the count 1; it is not lowered to 0.
\<close>

theorem refCount_one_not_decremented:
  "map_option bs_refCount
     (backendStates (updateReferences sharedOps (tcp4 100 80) [tcp4 2 8080]) (tcp4 1 8080)) = Some 1"
  by (simp add: registry_simps tcp4_def AddrClusterFrom_def)

section \<open>Properties of the sort\<close>

lemma backend_less_iff: "backend_less a b \<longleftrightarrow> sortKey a < sortKey b"
  by (auto simp: backend_less_def sortKey_def Compare_def Let_def word_less_nat_alt)

lemma mset_sink: "mset (sink lt x ys) = add_mset x (mset ys)"
  by (induction ys) auto

lemma mset_fold_sink: "mset (fold (sink lt) xs acc) = mset xs + mset acc"
  by (induction xs arbitrary: acc) (auto simp: mset_sink)

lemma set_sink: "set (sink lt x ys) = insert x (set ys)"
  by (induction ys) auto

lemma sorted_sink:
  fixes f :: "'a \<Rightarrow> 'k::linorder"
  assumes "\<And>a b. lt a b \<longleftrightarrow> f a < f b" "sorted (rev (map f acc))"
  shows "sorted (rev (map f (sink lt x acc)))"
  using assms(2)
proof (induction acc)
  case Nil
  then show ?case by simp
next
  case (Cons y ys)
  then show ?case
    using assms(1) by (auto simp: sorted_append set_sink less_imp_le)
qed

lemma sorted_fold_sink:
  fixes f :: "'a \<Rightarrow> 'k::linorder"
  assumes "\<And>a b. lt a b \<longleftrightarrow> f a < f b" "sorted (rev (map f acc))"
  shows "sorted (rev (map f (fold (sink lt) xs acc)))"
  using assms(2)
proof (induction xs arbitrary: acc)
  case Nil
  then show ?case by simp
next
  case (Cons x xs)
  have "sorted (rev (map f (sink lt x acc)))"
    using assms(1) Cons.prems by (rule sorted_sink)
  then show ?case
    using Cons.IH [of "sink lt x acc"] by simp
qed

lemma filter_sink:
  fixes f :: "'a \<Rightarrow> 'k::linorder"
  assumes "\<And>a b. lt a b \<longleftrightarrow> f a < f b"
  shows "filter (\<lambda>y. k = f y) (sink lt x acc) =
           (if k = f x then x # filter (\<lambda>y. k = f y) acc else filter (\<lambda>y. k = f y) acc)"
  using assms by (induction acc) auto

lemma filter_fold_sink:
  fixes f :: "'a \<Rightarrow> 'k::linorder"
  assumes "\<And>a b. lt a b \<longleftrightarrow> f a < f b"
  shows "filter (\<lambda>y. k = f y) (fold (sink lt) xs acc) =
           rev (filter (\<lambda>y. k = f y) xs) @ filter (\<lambda>y. k = f y) acc"
  by (induction xs arbitrary: acc) (auto simp: filter_sink [OF assms])

lemma sort_Slice_sort_key:
  fixes f :: "'a \<Rightarrow> 'k::linorder"
  assumes "\<And>a b. lt a b \<longleftrightarrow> f a < f b"
  shows "sort_Slice lt xs = sort_key f xs"
proof (rule properties_for_sort_key [symmetric])
  show "mset (sort_Slice lt xs) = mset xs"
    by (simp add: sort_Slice_def mset_fold_sink)
  show "sorted (map f (sort_Slice lt xs))"
    using sorted_fold_sink [of lt f "[]" xs] assms by (simp add: sort_Slice_def rev_map)
  show "\<And>k. k \<in> set (sort_Slice lt xs) \<Longrightarrow>
          filter (\<lambda>x. f k = f x) (sort_Slice lt xs) = filter (\<lambda>x. f k = f x) xs"
    by (simp add: sort_Slice_def filter_fold_sink [OF assms] rev_filter [symmetric])
qed

lemma sortedBackends_sort_key: "sortedBackends bes = sort_key sortKey bes"
  unfolding sortedBackends_def by (rule sort_Slice_sort_key) (rule backend_less_iff)

section \<open>Properties of Prune\<close>

lemma errors_Join_None_iff: "errors_Join errs = None \<longleftrightarrow> (\<forall>e \<in> set errs. e = None)"
proof -
  have "List.map_filter id errs = [] \<longleftrightarrow> (\<forall>e \<in> set errs. e = None)"
    by (induction errs) (auto simp: List.map_filter_simps split: option.splits)
  then show ?thesis
    by (auto simp: errors_Join_def split: list.splits)
qed

text \<open>
  C8. \<open>Prune\<close> runs the four sweeps one after the other, each on the state the one before
  left, whatever they return; its result is the join of the four results, which is
  success exactly when all four are.
\<close>

theorem Prune_runs_every_sweep:
  "fst (Prune env ops) =
     fst (pruneRevNat env (fst (pruneBackendMaps env (fst (pruneServiceMaps env (fst (pruneRestoredIDs env ops))))))) \<and>
   snd (Prune env ops) =
     errors_Join
       [snd (pruneRestoredIDs env ops),
        snd (pruneServiceMaps env (fst (pruneRestoredIDs env ops))),
        snd (pruneBackendMaps env (fst (pruneServiceMaps env (fst (pruneRestoredIDs env ops))))),
        snd (pruneRevNat env (fst (pruneBackendMaps env (fst (pruneServiceMaps env (fst (pruneRestoredIDs env ops)))))))] \<and>
   (snd (Prune env ops) = None \<longleftrightarrow>
      snd (pruneRestoredIDs env ops) = None \<and>
      snd (pruneServiceMaps env (fst (pruneRestoredIDs env ops))) = None \<and>
      snd (pruneBackendMaps env (fst (pruneServiceMaps env (fst (pruneRestoredIDs env ops))))) = None \<and>
      snd (pruneRevNat env (fst (pruneBackendMaps env (fst (pruneServiceMaps env (fst (pruneRestoredIDs env ops))))))) = None)"
proof -
  have 1: "fst (Prune env ops) =
     fst (pruneRevNat env (fst (pruneBackendMaps env (fst (pruneServiceMaps env (fst (pruneRestoredIDs env ops)))))))"
    by (simp add: Prune_def split: prod.splits)
  have 2: "snd (Prune env ops) =
     errors_Join
       [snd (pruneRestoredIDs env ops),
        snd (pruneServiceMaps env (fst (pruneRestoredIDs env ops))),
        snd (pruneBackendMaps env (fst (pruneServiceMaps env (fst (pruneRestoredIDs env ops))))),
        snd (pruneRevNat env (fst (pruneBackendMaps env (fst (pruneServiceMaps env (fst (pruneRestoredIDs env ops)))))))]"
    by (simp add: Prune_def split: prod.splits)
  show ?thesis
    unfolding 2 errors_Join_None_iff using 1 by simp
qed

theorem Prune_runs_every_sweep_witness:
  "snd (Prune pruneEnv ((newBPFOps ())\<lparr>restoredServiceIDs := [4]\<rparr>)) = Some (Joined [DriverError 5]) \<and>
   trace (fst (Prune pruneEnv ((newBPFOps ())\<lparr>restoredServiceIDs := [4]\<rparr>))) = [MapDeleteService staleKey] \<and>
   restoredServiceIDs (fst (Prune pruneEnv ((newBPFOps ())\<lparr>restoredServiceIDs := [4]\<rparr>))) = []"
  using Prune_runs_every_sweep [of pruneEnv "(newBPFOps ())\<lparr>restoredServiceIDs := [4]\<rparr>"]
  by (simp add: pruneEnv_def exampleEnv_def newBPFOps_def pruneRestoredIDs_def pruneServiceMaps_def
      pruneBackendMaps_def pruneRevNat_def errors_Join_def List.map_filter_simps call_def
      newIDAllocator_def)


section \<open>Properties of updateFrontend\<close>

lemmas eval_simps =
  example_simps allocator_simps registry_simps
  exampleEnv_def exampleBackend_def exampleService_def exampleFrontend_def
  updateFrontend_def finishUpdate_def updateBackendStep_def backendIDFor_def refreshBackend_def
  writeSlot_def writeAffinity_def upsertService_def upsertMaster_def cleanupSlots_def upsertBackend_def
  deleteBackend_def upsertAffinityMatch_def deleteAffinityMatch_def upsertRevNat_def call_def
  newServiceKey_def zeroServiceValue_def svcFlags_def backendAddrsOf_def set_Insert_def
  sortedBackends_def sort_Slice_def backend_less_def Compare_def needsUpdate_def
  updateBackendRevision_def releaseBackend_def IsIPv6_def BackendStateActive_def Let_def

lemmas eval_congs = option.case_cong_weak prod.case_cong_weak sum.case_cong_weak

lemma book_call: "book (fst (call env op ops)) = book ops"
  by (simp add: call_def book_def split: prod.splits)

lemma book_upsertService: "book (fst (upsertService env k v ops)) = book ops"
  using book_call [of env "UpdateService k v" ops]
  by (auto simp: upsertService_def split: prod.splits option.splits)

lemma book_upsertMaster: "book (fst (upsertMaster env k v fe n ops)) = book ops"
  by (simp add: upsertMaster_def Let_def book_upsertService)

lemma book_cleanupLoop: "book (fst (cleanupLoop env k is ops)) = book ops"
proof (induction "is" arbitrary: ops)
  case Nil
  then show ?case by simp
next
  case (Cons i rest)
  show ?case
    using book_call [of env "SilentDeleteService (k\<lparr>sk_slot := i + 1\<rparr>)" ops] Cons.IH
    by (auto split: prod.splits option.splits)
qed

lemma book_cleanupSlots: "book (fst (cleanupSlots env k m n ops)) = book ops"
  by (simp add: cleanupSlots_def book_cleanupLoop)

lemma book_upsertBackend: "book (fst (upsertBackend env i be ops)) = book ops"
  by (auto simp: upsertBackend_def book_call split: sum.splits prod.splits)

lemma book_deleteBackend: "book (fst (deleteBackend env v6 i ops)) = book ops"
  using book_call [of env "SilentDeleteBackend \<lparr>bk_v6 = v6, bk_id = i\<rparr>" ops]
  by (auto simp: deleteBackend_def split: prod.splits option.splits)

lemma book_upsertAffinityMatch: "book (fst (upsertAffinityMatch env i b ops)) = book ops"
  by (simp add: upsertAffinityMatch_def book_call)

lemma book_deleteAffinityMatch: "book (fst (deleteAffinityMatch env i b ops)) = book ops"
  by (simp add: deleteAffinityMatch_def book_call)

lemma book_upsertRevNat: "book (fst (upsertRevNat env i k v ops)) = book ops"
  using book_call [of env "UpdateRevNat \<lparr>rk_v6 = sv_v6 v, rk_key = ucast i\<rparr> \<lparr>rv_addr = sk_addr k, rv_port = sk_port k\<rparr>" ops]
  by (auto simp: upsertRevNat_def Let_def split: prod.splits option.splits)

lemmas book_writes =
  book_call book_upsertService book_upsertMaster book_cleanupLoop book_cleanupSlots book_upsertBackend
  book_deleteBackend book_upsertAffinityMatch book_deleteAffinityMatch book_upsertRevNat

lemma book_refsD: "book a = book b \<Longrightarrow> backendReferences a = backendReferences b"
  by (simp add: book_def)

lemma book_statesD: "book a = book b \<Longrightarrow> backendStates a = backendStates b"
  by (simp add: book_def)

lemma book_beAllocD: "book a = book b \<Longrightarrow> backendIDAlloc a = backendIDAlloc b"
  by (simp add: book_def)

lemma book_svcAllocD: "book a = book b \<Longrightarrow> serviceIDAlloc a = serviceIDAlloc b"
  by (simp add: book_def)

lemmas refs_writes [simp] = book_writes [THEN book_refsD]
lemmas states_writes [simp] = book_writes [THEN book_statesD]
lemmas beAlloc_writes [simp] = book_writes [THEN book_beAllocD]
lemmas svcAlloc_writes [simp] = book_writes [THEN book_svcAllocD]

lemma refs_releaseBackend [simp]: "backendReferences (releaseBackend env ops i a) = backendReferences ops"
  by (simp add: releaseBackend_def)

lemma refs_updateBackendRevision [simp]:
  "backendReferences (updateBackendRevision ops i a r) = backendReferences ops"
  by (simp add: updateBackendRevision_def)

lemma pair_case_eq:
  "(case p of (a, None) \<Rightarrow> g a | (a, Some e) \<Rightarrow> f a e) =
   (case snd p of None \<Rightarrow> g (fst p) | Some e \<Rightarrow> f (fst p) e)"
  by (cases p) (simp split: option.splits)

lemma fst_case_err:
  "fst (case p of (ops1, Some err) \<Rightarrow> (ops1, Some (f err)) | (ops1, None) \<Rightarrow> (ops1, None)) = fst p"
  by (auto split: prod.splits option.splits)

lemma refs_deleteOrphansOnUpdate:
  "backendReferences (fst (deleteOrphansOnUpdate env feID os ops)) = backendReferences ops"
proof (induction os arbitrary: ops)
  case Nil
  then show ?case by simp
next
  case (Cons s rest)
  let ?o1 = "fst (deleteBackend env (IsIPv6 (bs_addr s)) (bs_id s) ops)"
  let ?o2 = "fst (deleteAffinityMatch env feID (bs_id s) ?o1)"
  have "backendReferences (releaseBackend env ?o2 (bs_id s) (bs_addr s)) = backendReferences ops"
    by simp
  with Cons.IH [of "releaseBackend env ?o2 (bs_id s) (bs_addr s)"]
  have "backendReferences (fst (deleteOrphansOnUpdate env feID rest (releaseBackend env ?o2 (bs_id s) (bs_addr s))))
          = backendReferences ops"
    by simp
  moreover have "backendReferences ?o2 = backendReferences ops" "backendReferences ?o1 = backendReferences ops"
    by simp_all
  ultimately show ?case
    by (simp add: pair_case_eq split: option.splits)
qed

lemma refs_backendIDFor:
  "backendIDFor env a ops = Some (ops1, r) \<Longrightarrow> backendReferences ops1 = backendReferences ops"
  by (auto simp: backendIDFor_def split: option.splits if_splits prod.splits)

lemma refs_refreshBackend [simp]:
  "backendReferences (fst (refreshBackend env i be ops)) = backendReferences ops"
  by (simp add: refreshBackend_def pair_case_eq split: option.splits)

lemma refs_writeSlot [simp]:
  "backendReferences (fst (writeSlot env feID k v i b be ops)) = backendReferences ops"
  by (auto simp: writeSlot_def fst_case_err)

lemma refs_writeAffinity [simp]:
  "backendReferences (fst (writeAffinity env fe feID b be ops)) = backendReferences ops"
  by (auto simp: writeAffinity_def fst_case_err)

lemma refs_updateBackendStep:
  assumes "updateBackendStep env fe feID k v i be ops = Some (ops', e)"
  shows "backendReferences ops' = backendReferences ops"
proof -
  from assms obtain ops1 r where id: "backendIDFor env (be_L3n4Addr be) ops = Some (ops1, r)"
    by (auto simp: updateBackendStep_def split: option.splits)
  have r1: "backendReferences ops1 = backendReferences ops"
    using refs_backendIDFor [OF id] .
  show ?thesis
  proof (cases r)
    case (Inl err)
    with assms id r1 show ?thesis by (simp add: updateBackendStep_def)
  next
    case (Inr beID)
    let ?o2 = "fst (refreshBackend env beID be ops1)"
    let ?o3 = "fst (writeSlot env feID k v i beID be ?o2)"
    let ?o4 = "fst (writeAffinity env fe feID beID be ?o3)"
    from assms id Inr have "ops' = ?o2 \<or> ops' = ?o3 \<or> ops' = ?o4"
      by (auto simp: updateBackendStep_def pair_case_eq split: option.splits)
    with r1 show ?thesis by auto
  qed
qed

lemma refs_updateBackendsLoop:
  "updateBackendsLoop env fe feID k v i bes ops = Some (ops', e) \<Longrightarrow>
   backendReferences ops' = backendReferences ops"
proof (induction bes arbitrary: i ops)
  case Nil
  then show ?case by simp
next
  case (Cons be rest)
  from Cons.prems obtain ops1 e1 where st: "updateBackendStep env fe feID k v i be ops = Some (ops1, e1)"
    by (auto split: option.splits)
  note r1 = refs_updateBackendStep [OF st]
  show ?case
  proof (cases e1)
    case None
    with Cons.prems st have "updateBackendsLoop env fe feID k v (i + 1) rest ops1 = Some (ops', e)"
      by simp
    from Cons.IH [OF this] r1 show ?thesis by simp
  next
    case (Some err)
    with Cons.prems st r1 show ?thesis by simp
  qed
qed

lemma refs_finishUpdate_error:
  assumes "finishUpdate env fe feID k v bes addrs ops = (ops', Some err)"
  shows "backendReferences ops' = backendReferences ops"
proof -
  let ?o1 = "fst (upsertRevNat env feID k v ops)"
  let ?o2 = "fst (upsertMaster env k v fe (numActive bes) ?o1)"
  let ?o3 = "fst (cleanupSlots env k (length (refsOf (backendReferences ops) (fe_Address fe))) (numActive bes) ?o2)"
  from assms have "ops' = ?o1 \<or> ops' = ?o2 \<or> ops' = ?o3"
    by (auto simp: finishUpdate_def Let_def pair_case_eq split: option.splits)
  then show ?thesis by auto
qed

lemma refs_updateFrontend_error:
  assumes "updateFrontend env fe ops = Some (ops', Some err)"
  shows "backendReferences ops' = backendReferences ops"
proof -
  from assms obtain alloc r where acq:
    "acquireLocalID (StringID env) (serviceIDAlloc ops) (fe_Address fe) 0 = Some (alloc, r)"
    by (auto simp: updateFrontend_def split: option.splits)
  show ?thesis
  proof (cases r)
    case (Inl e)
    with assms acq show ?thesis by (auto simp: updateFrontend_def)
  next
    case (Inr feID)
    define ops0 where "ops0 = ops\<lparr>serviceIDAlloc := alloc\<rparr>"
    define k where "k = newServiceKey (fe_Address fe)"
    define v where "v = (zeroServiceValue (IsIPv6 (fe_Address fe)))\<lparr>sv_flags := svcFlags env fe k, sv_revNat := ucast feID\<rparr>"
    define bes where "bes = sortedBackends (fe_Backends fe)"
    define addrs where "addrs = backendAddrsOf bes"
    define d where "d = deleteOrphansOnUpdate env feID (orphanBackends ops0 (fe_Address fe) addrs) ops0"
    have r0: "backendReferences ops0 = backendReferences ops" by (simp add: ops0_def)
    have rd: "backendReferences (fst d) = backendReferences ops"
      using refs_deleteOrphansOnUpdate [of env feID _ ops0] r0 by (simp add: d_def)
    from assms acq Inr have body:
      "(case d of
          (ops1, Some err) \<Rightarrow> Some (ops1, Some err)
        | (ops1, None) \<Rightarrow>
            (case updateBackendsLoop env fe feID k v 0 bes ops1 of
               None \<Rightarrow> None
             | Some (ops2, Some err) \<Rightarrow> Some (ops2, Some err)
             | Some (ops2, None) \<Rightarrow> Some (finishUpdate env fe feID k v bes addrs ops2))) = Some (ops', Some err)"
      unfolding updateFrontend_def Let_def ops0_def k_def v_def bes_def addrs_def d_def by simp
    show ?thesis
    proof (cases "snd d")
      case (Some e)
      with body have "ops' = fst d" by (auto split: prod.splits)
      with rd show ?thesis by simp
    next
      case None
      with body obtain ops2 e2 where lp: "updateBackendsLoop env fe feID k v 0 bes (fst d) = Some (ops2, e2)"
        by (auto split: prod.splits option.splits)
      note r2 = refs_updateBackendsLoop [OF lp]
      show ?thesis
      proof (cases e2)
        case (Some e)
        with body None lp have "ops' = ops2" by (auto split: prod.splits)
        with r2 rd show ?thesis by simp
      next
        case none2: None
        with body None lp have "finishUpdate env fe feID k v bes addrs ops2 = (ops', Some err)"
          by (auto split: prod.splits)
        from refs_finishUpdate_error [OF this] r2 rd show ?thesis by simp
      qed
    qed
  qed
qed

lemma refs_updateReferences:
  "backendReferences (updateReferences ops fa addrs) = (backendReferences ops)(fa \<mapsto> addrs)"
  by (simp add: updateReferences_def updateBackendRefCounts_def split: prod.splits)

lemma refs_finishUpdate_success:
  assumes "finishUpdate env fe feID k v bes addrs ops = (ops', None)"
  shows "backendReferences ops' = (backendReferences ops)(fe_Address fe \<mapsto> addrs)"
proof -
  define n where "n = length (refsOf (backendReferences ops) (fe_Address fe))"
  let ?r1 = "upsertRevNat env feID k v ops"
  let ?r2 = "upsertMaster env k v fe (numActive bes) (fst ?r1)"
  let ?r3 = "cleanupSlots env k n (numActive bes) (fst ?r2)"
  from assms have "ops' = updateReferences (fst ?r3) (fe_Address fe) addrs"
    by (auto simp: finishUpdate_def Let_def pair_case_eq n_def split: option.splits)
  then show ?thesis
    by (simp add: refs_updateReferences)
qed

lemma refs_updateFrontend_success:
  assumes "updateFrontend env fe ops = Some (ops', None)"
  shows "backendReferences ops' =
           (backendReferences ops)(fe_Address fe \<mapsto> backendAddrsOf (sortedBackends (fe_Backends fe)))"
proof -
  from assms obtain alloc r where acq:
    "acquireLocalID (StringID env) (serviceIDAlloc ops) (fe_Address fe) 0 = Some (alloc, r)"
    by (auto simp: updateFrontend_def split: option.splits)
  from assms acq obtain feID where r: "r = Inr feID"
    by (cases r) (auto simp: updateFrontend_def)
  define ops0 where "ops0 = ops\<lparr>serviceIDAlloc := alloc\<rparr>"
  define k where "k = newServiceKey (fe_Address fe)"
  define v where "v = (zeroServiceValue (IsIPv6 (fe_Address fe)))\<lparr>sv_flags := svcFlags env fe k, sv_revNat := ucast feID\<rparr>"
  define bes where "bes = sortedBackends (fe_Backends fe)"
  define addrs where "addrs = backendAddrsOf bes"
  define d where "d = deleteOrphansOnUpdate env feID (orphanBackends ops0 (fe_Address fe) addrs) ops0"
  have rd: "backendReferences (fst d) = backendReferences ops"
    using refs_deleteOrphansOnUpdate [of env feID _ ops0] by (simp add: d_def ops0_def)
  from assms acq r have body:
    "(case d of
        (ops1, Some err) \<Rightarrow> Some (ops1, Some err)
      | (ops1, None) \<Rightarrow>
          (case updateBackendsLoop env fe feID k v 0 bes ops1 of
             None \<Rightarrow> None
           | Some (ops2, Some err) \<Rightarrow> Some (ops2, Some err)
           | Some (ops2, None) \<Rightarrow> Some (finishUpdate env fe feID k v bes addrs ops2))) = Some (ops', None)"
    unfolding updateFrontend_def Let_def ops0_def k_def v_def bes_def addrs_def d_def by simp
  then obtain ops2 where lp: "updateBackendsLoop env fe feID k v 0 bes (fst d) = Some (ops2, None)"
    and fin: "finishUpdate env fe feID k v bes addrs ops2 = (ops', None)"
    by (auto simp: pair_case_eq split: option.splits)
  from refs_finishUpdate_success [OF fin] refs_updateBackendsLoop [OF lp] rd show ?thesis
    by (simp add: addrs_def bes_def)
qed

text \<open>
  C1. When \<open>updateFrontend\<close> returns an error, the membership map is what it was before
  the call, for this frontend and for every other; when it returns success, the map
  differs from the one before the call in the entry of this frontend only, which is the
  new backend set. \<open>updateReferences\<close> is the last step and is reached only when every
  write has succeeded.
\<close>

theorem updateFrontend_commits_last:
  assumes "updateFrontend env fe ops = Some (ops', r)"
  shows "backendReferences ops' =
           (case r of
              Some err \<Rightarrow> backendReferences ops
            | None \<Rightarrow> (backendReferences ops)(fe_Address fe \<mapsto> backendAddrsOf (sortedBackends (fe_Backends fe))))"
proof (cases r)
  case None
  with assms show ?thesis by (simp add: refs_updateFrontend_success)
next
  case (Some err)
  with assms show ?thesis by (simp add: refs_updateFrontend_error)
qed

theorem updateFrontend_commits_last_witness:
  "map_option (\<lambda>(s, e). (e, backendReferences s (tcp4 100 80)))
     (updateFrontend (exampleEnv isUpdateRevNat)
        (exampleFrontend (tcp4 100 80) SVCTypeClusterIP [exampleBackend 2 8080 TCP 0] []) sharedOps)
   = Some (Some (Wrapped ''upsert reverse nat'' (Wrapped ''Unable to update reverse NAT'' (DriverError 5))),
           Some [tcp4 1 8080, tcp4 2 8080])"
proof -
  let ?run = "updateFrontend (exampleEnv isUpdateRevNat)
        (exampleFrontend (tcp4 100 80) SVCTypeClusterIP [exampleBackend 2 8080 TCP 0] []) sharedOps"
  let ?err = "Wrapped ''upsert reverse nat'' (Wrapped ''Unable to update reverse NAT'' (DriverError 5))"
  have "map_option snd ?run = Some (Some ?err)"
    by (simp add: eval_simps cong: eval_congs)
  then obtain s where run: "?run = Some (s, Some ?err)"
    by (cases ?run) auto
  have "backendReferences s = backendReferences sharedOps"
    using updateFrontend_commits_last [OF run] by simp
  then have "backendReferences s (tcp4 100 80) = Some [tcp4 1 8080, tcp4 2 8080]"
    by (simp add: sharedOps_def newBPFOps_def tcp4_def AddrClusterFrom_def)
  with run show ?thesis
    by simp
qed

section \<open>A second Update\<close>

lemma held_nextID [simp]: "held (alloc\<lparr>nextID := n\<rparr>) k i = held alloc k i"
  by (simp add: held_def)








lemma issues_refl [simp]: "issues P ops ops"
  by (simp add: issues_def)

lemma issues_trans: "issues P a b \<Longrightarrow> issues P b c \<Longrightarrow> issues P a c"
  by (auto simp: issues_def)

lemma issues_trace_eq: "trace b = trace a \<Longrightarrow> issues P a b"
  by (simp add: issues_def)

lemma issues_call: "P op \<Longrightarrow> issues P ops (fst (call env op ops))"
  by (simp add: issues_def call_def split: prod.splits)

lemma reliable_call: "reliable env \<Longrightarrow> snd (call env op ops) = None"
proof -
  assume "reliable env"
  then have "snd (driver env op (lbmaps ops)) = None"
    by (simp add: reliable_def)
  then show ?thesis
    by (cases "driver env op (lbmaps ops)") (simp add: call_def)
qed

lemma upsertService_facts:
  "fst (upsertService env k v ops) = fst (call env (UpdateService k v) ops)"
  "reliable env \<Longrightarrow> snd (upsertService env k v ops) = None"
  by (auto simp: upsertService_def pair_case_eq reliable_call split: option.splits)

lemma issues_upsertService:
  "P (UpdateService k v) \<Longrightarrow> issues P ops (fst (upsertService env k v ops))"
  by (simp add: upsertService_facts issues_call)

lemma upsertMaster_facts:
  "(\<And>k v. P (UpdateService k v)) \<Longrightarrow> issues P ops (fst (upsertMaster env k v fe n ops))"
  "reliable env \<Longrightarrow> snd (upsertMaster env k v fe n ops) = None"
  by (simp_all add: upsertMaster_def Let_def issues_upsertService upsertService_facts(2))

lemma cleanupLoop_facts:
  "(\<And>k. P (SilentDeleteService k)) \<Longrightarrow> issues P ops (fst (cleanupLoop env k is ops))"
  "reliable env \<Longrightarrow> snd (cleanupLoop env k is ops) = None"
proof (induction "is" arbitrary: ops)
  case Nil
  { case 1 show ?case by simp }
  { case 2 show ?case by simp }
next
  case (Cons i rest)
  { case 1
    have a: "issues P ops (fst (call env (SilentDeleteService (k\<lparr>sk_slot := i + 1\<rparr>)) ops))"
      using 1 by (simp add: issues_call)
    show ?case
      using a issues_trans [OF a Cons.IH(1) [OF 1]]
      by (simp add: pair_case_eq split: option.splits) }
  { case 2
    show ?case
      using reliable_call [OF 2] Cons.IH(2) [OF 2]
      by (simp add: pair_case_eq split: option.splits) }
qed

lemma deleteAffinityMatch_facts:
  "(\<And>k. P (SilentDeleteAffinityMatch k)) \<Longrightarrow> issues P ops (fst (deleteAffinityMatch env i b ops))"
  "reliable env \<Longrightarrow> snd (deleteAffinityMatch env i b ops) = None"
  by (simp_all add: deleteAffinityMatch_def issues_call reliable_call)

lemma upsertAffinityMatch_facts:
  "(\<And>k. P (UpdateAffinityMatch k)) \<Longrightarrow> issues P ops (fst (upsertAffinityMatch env i b ops))"
  "reliable env \<Longrightarrow> snd (upsertAffinityMatch env i b ops) = None"
  by (simp_all add: upsertAffinityMatch_def issues_call reliable_call)

lemma upsertRevNat_facts:
  "(\<And>k v. P (UpdateRevNat k v)) \<Longrightarrow> issues P ops (fst (upsertRevNat env i k v ops))"
  "reliable env \<Longrightarrow> (ucast i :: 16 word) \<noteq> 0 \<Longrightarrow> snd (upsertRevNat env i k v ops) = None"
  "snd (upsertRevNat env i k v ops) = None \<Longrightarrow> (ucast i :: 16 word) \<noteq> 0"
  by (auto simp: upsertRevNat_def Let_def issues_call reliable_call pair_case_eq split: option.splits)







lemma writeSlot_facts:
  "(\<And>k v. P (UpdateService k v)) \<Longrightarrow> issues P ops (fst (writeSlot env feID k v i b be ops))"
  "reliable env \<Longrightarrow> snd (writeSlot env feID k v i b be ops) = None"
  "book (fst (writeSlot env feID k v i b be ops)) = book ops"
  by (simp_all add: writeSlot_def pair_case_eq issues_upsertService upsertService_facts(2) book_upsertService
      split: option.splits)

lemma writeAffinity_facts:
  "(\<And>k. P (UpdateAffinityMatch k)) \<Longrightarrow> (\<And>k. P (SilentDeleteAffinityMatch k)) \<Longrightarrow>
     issues P ops (fst (writeAffinity env fe feID b be ops))"
  "reliable env \<Longrightarrow> snd (writeAffinity env fe feID b be ops) = None"
  "book (fst (writeAffinity env fe feID b be ops)) = book ops"
  by (simp_all add: writeAffinity_def pair_case_eq upsertAffinityMatch_facts deleteAffinityMatch_facts
      book_upsertAffinityMatch book_deleteAffinityMatch split: option.splits)

lemma quiet_simps [simp]:
  "quiet (UpdateService k v)" "quiet (SilentDeleteService k)" "quiet (UpdateRevNat rk rv)"
  "quiet (UpdateAffinityMatch ak)" "quiet (SilentDeleteAffinityMatch ak)" "quiet (DeleteService k)"
  "quiet (DeleteRevNat rk)"
  by (simp_all add: quiet_def)









lemma grows_refl [simp]: "grows env ops ops"
  by (simp add: grows_def)







lemma svcAlloc_releaseBackend [simp]: "serviceIDAlloc (releaseBackend env ops i a) = serviceIDAlloc ops"
  by (simp add: releaseBackend_def)


lemma sameRevID_refl [simp]: "sameRevID st st"
  by (simp add: sameRevID_def)















lemma reconciledAt_nodePortAddrs [simp]:
  "reconciledAt env (ops\<lparr>nodePortAddrs := m\<rparr>) x bes = reconciledAt env ops x bes"
  by (simp add: reconciledAt_def settled_def avail_def revOf_def)



lemma book_nodePortsD: "book a = book b \<Longrightarrow> nodePortAddrs a = nodePortAddrs b"
  by (simp add: book_def)

lemmas nodePorts_writes [simp] = book_writes [THEN book_nodePortsD]

lemma nodePorts_releaseBackend [simp]: "nodePortAddrs (releaseBackend env ops i a) = nodePortAddrs ops"
  by (simp add: releaseBackend_def)

lemma nodePorts_updateBackendRevision [simp]:
  "nodePortAddrs (updateBackendRevision ops i a r) = nodePortAddrs ops"
  by (simp add: updateBackendRevision_def)

lemma nodePorts_updateReferences [simp]:
  "nodePortAddrs (updateReferences ops fa addrs) = nodePortAddrs ops"
  by (simp add: updateReferences_def updateBackendRefCounts_def split: prod.splits)



lemma nodePorts_refreshBackend [simp]:
  "nodePortAddrs (fst (refreshBackend env i be ops)) = nodePortAddrs ops"
  by (simp add: refreshBackend_def pair_case_eq split: option.splits)

lemma nodePorts_writeSlot [simp]:
  "nodePortAddrs (fst (writeSlot env feID k v i b be ops)) = nodePortAddrs ops"
  by (auto simp: writeSlot_def fst_case_err)

lemma nodePorts_writeAffinity [simp]:
  "nodePortAddrs (fst (writeAffinity env fe feID b be ops)) = nodePortAddrs ops"
  by (auto simp: writeAffinity_def fst_case_err)





lemma set_set_New [simp]: "set (set_New l) = set l"
proof -
  have "set (fold (\<lambda>x s. set_Insert s x) l acc) = set l \<union> set acc" for acc
    by (induction l arbitrary: acc) (auto simp: set_Insert_def)
  then show ?thesis by (simp add: set_New_def)
qed

lemma set_set_Delete [simp]: "set (set_Delete s x) = set s - {x}"
  by (simp add: set_Delete_def)

lemma sortedBackends_idem [simp]: "sortedBackends (sortedBackends bes) = sortedBackends bes"
  by (simp add: sortedBackends_sort_key sort_key_id_if_sorted)

lemma cloneOf_refl [simp]: "cloneOf fe fe"
  by (simp add: cloneOf_def)

lemma cloneOf_sortedInPlace [simp]: "cloneOf fe (sortedInPlace fe)"
  by (simp add: cloneOf_def sortedInPlace_def)















section \<open>Orphans and deleted backend rows\<close>

lemma trace_releaseBackend [simp]: "trace (releaseBackend env ops i a) = trace ops"
  by (simp add: releaseBackend_def)

lemma trace_updateBackendRevision [simp]: "trace (updateBackendRevision ops i a r) = trace ops"
  by (simp add: updateBackendRevision_def)

lemma trace_updateReferences [simp]: "trace (updateReferences ops fa addrs) = trace ops"
  by (simp add: updateReferences_def updateBackendRefCounts_def split: prod.splits)

lemma trace_backendIDFor: "backendIDFor env a ops = Some (ops1, r) \<Longrightarrow> trace ops1 = trace ops"
  by (auto simp: backendIDFor_def split: option.splits if_splits prod.splits)

lemma issues_deleteBackend:
  "P (SilentDeleteBackend \<lparr>bk_v6 = v6, bk_id = i\<rparr>) \<Longrightarrow> issues P ops (fst (deleteBackend env v6 i ops))"
  using issues_call [of P "SilentDeleteBackend \<lparr>bk_v6 = v6, bk_id = i\<rparr>" ops env]
  by (simp add: deleteBackend_def pair_case_eq split: option.splits)

lemma issues_upsertBackend:
  "(\<And>k v. P (UpdateBackend k v)) \<Longrightarrow> issues P ops (fst (upsertBackend env i be ops))"
  by (auto simp: upsertBackend_def issues_call split: sum.splits prod.splits)

lemma issues_refreshBackend:
  "(\<And>k v. P (UpdateBackend k v)) \<Longrightarrow> issues P ops (fst (refreshBackend env i be ops))"
  using issues_upsertBackend [of P ops env i be]
  by (auto simp: refreshBackend_def pair_case_eq issues_def split: option.splits)

lemma issues_deleteOrphansOnUpdate:
  assumes "\<And>s. s \<in> set os \<Longrightarrow> P (SilentDeleteBackend \<lparr>bk_v6 = IsIPv6 (bs_addr s), bk_id = bs_id s\<rparr>)"
    and "\<And>k. P (SilentDeleteAffinityMatch k)"
  shows "issues P ops (fst (deleteOrphansOnUpdate env feID os ops))"
  using assms(1)
proof (induction os arbitrary: ops)
  case Nil
  then show ?case by simp
next
  case (Cons s rest)
  let ?o1 = "fst (deleteBackend env (IsIPv6 (bs_addr s)) (bs_id s) ops)"
  let ?o2 = "fst (deleteAffinityMatch env feID (bs_id s) ?o1)"
  let ?o3 = "releaseBackend env ?o2 (bs_id s) (bs_addr s)"
  have i1: "issues P ops ?o1"
    using Cons.prems by (simp add: issues_deleteBackend)
  have i2: "issues P ops ?o2"
    by (rule issues_trans [OF i1]) (simp add: deleteAffinityMatch_facts assms(2))
  have i3: "issues P ops ?o3"
    by (rule issues_trans [OF i2]) (simp add: issues_trace_eq)
  have i4: "issues P ops (fst (deleteOrphansOnUpdate env feID rest ?o3))"
    by (rule issues_trans [OF i3]) (simp add: Cons.IH Cons.prems)
  show ?case
    using i1 i2 i4 by (simp add: pair_case_eq split: option.splits)
qed

lemma issues_updateBackendStep:
  assumes P: "\<And>k v. P (UpdateBackend k v)" "\<And>k v. P (UpdateService k v)"
      "\<And>k. P (UpdateAffinityMatch k)" "\<And>k. P (SilentDeleteAffinityMatch k)"
    and st: "updateBackendStep env fe feID k v i be ops = Some (ops', e)"
  shows "issues P ops ops'"
proof -
  from st obtain ops1 r where id: "backendIDFor env (be_L3n4Addr be) ops = Some (ops1, r)"
    by (auto simp: updateBackendStep_def split: option.splits)
  have i1: "issues P ops ops1"
    using trace_backendIDFor [OF id] by (simp add: issues_trace_eq)
  show ?thesis
  proof (cases r)
    case (Inl err)
    with st id i1 show ?thesis by (simp add: updateBackendStep_def)
  next
    case (Inr beID)
    let ?o2 = "fst (refreshBackend env beID be ops1)"
    let ?o3 = "fst (writeSlot env feID k v i beID be ?o2)"
    let ?o4 = "fst (writeAffinity env fe feID beID be ?o3)"
    have i2: "issues P ops ?o2"
      by (rule issues_trans [OF i1]) (simp add: issues_refreshBackend P)
    have i3: "issues P ops ?o3"
      by (rule issues_trans [OF i2]) (simp add: writeSlot_facts P)
    have i4: "issues P ops ?o4"
      by (rule issues_trans [OF i3]) (simp add: writeAffinity_facts P)
    from st id Inr have "ops' = ?o2 \<or> ops' = ?o3 \<or> ops' = ?o4"
      by (auto simp: updateBackendStep_def pair_case_eq split: option.splits)
    with i2 i3 i4 show ?thesis by auto
  qed
qed

lemma issues_updateBackendsLoop:
  assumes P: "\<And>k v. P (UpdateBackend k v)" "\<And>k v. P (UpdateService k v)"
      "\<And>k. P (UpdateAffinityMatch k)" "\<And>k. P (SilentDeleteAffinityMatch k)"
  shows "updateBackendsLoop env fe feID k v i bes ops = Some (ops', e) \<Longrightarrow> issues P ops ops'"
proof (induction bes arbitrary: i ops)
  case Nil
  then show ?case by simp
next
  case (Cons be rest)
  from Cons.prems obtain ops1 e1 where st: "updateBackendStep env fe feID k v i be ops = Some (ops1, e1)"
    by (auto split: option.splits)
  note i1 = issues_updateBackendStep [OF P st]
  show ?case
  proof (cases e1)
    case None
    with Cons.prems st have "updateBackendsLoop env fe feID k v (i + 1) rest ops1 = Some (ops', e)"
      by simp
    from issues_trans [OF i1 Cons.IH [OF this]] show ?thesis .
  next
    case (Some err)
    with Cons.prems st i1 show ?thesis by simp
  qed
qed

lemma issues_finishUpdate:
  assumes P: "\<And>k v. P (UpdateRevNat k v)" "\<And>k v. P (UpdateService k v)" "\<And>k. P (SilentDeleteService k)"
  shows "issues P ops (fst (finishUpdate env fe feID k v bes addrs ops))"
proof -
  define n where "n = length (refsOf (backendReferences ops) (fe_Address fe))"
  let ?r1 = "upsertRevNat env feID k v ops"
  let ?r2 = "upsertMaster env k v fe (numActive bes) (fst ?r1)"
  let ?r3 = "cleanupSlots env k n (numActive bes) (fst ?r2)"
  have i1: "issues P ops (fst ?r1)" by (simp add: upsertRevNat_facts P)
  have i2: "issues P ops (fst ?r2)"
    by (rule issues_trans [OF i1]) (simp add: upsertMaster_facts P)
  have i3: "issues P ops (fst ?r3)"
    by (rule issues_trans [OF i2]) (simp add: cleanupSlots_def cleanupLoop_facts P)
  have i4: "issues P ops (updateReferences (fst ?r3) (fe_Address fe) addrs)"
    by (rule issues_trans [OF i3]) (simp add: issues_trace_eq)
  show ?thesis
    using i1 i2 i3 i4
    by (simp add: finishUpdate_def Let_def pair_case_eq n_def split: option.splits)
qed

lemma orphanBackends_svcAlloc [simp]:
  "orphanBackends (ops\<lparr>serviceIDAlloc := alloc\<rparr>) fa addrs = orphanBackends ops fa addrs"
  by (simp add: orphanBackends_def split: option.splits)

lemma updateFrontend_deletesOnly:
  assumes "updateFrontend env fe ops = Some (ops', e)"
  shows "issues (deletesOnly (orphanBackends ops (fe_Address fe) (backendAddrsOf (sortedBackends (fe_Backends fe)))))
           ops ops'"
proof -
  define os where "os = orphanBackends ops (fe_Address fe) (backendAddrsOf (sortedBackends (fe_Backends fe)))"
  from assms obtain alloc r where acq:
    "acquireLocalID (StringID env) (serviceIDAlloc ops) (fe_Address fe) 0 = Some (alloc, r)"
    by (auto simp: updateFrontend_def split: option.splits)
  show ?thesis
  proof (cases r)
    case (Inl err)
    with assms acq show ?thesis by (auto simp: updateFrontend_def issues_trace_eq)
  next
    case (Inr feID)
    define ops0 where "ops0 = ops\<lparr>serviceIDAlloc := alloc\<rparr>"
    define k where "k = newServiceKey (fe_Address fe)"
    define v where "v = (zeroServiceValue (IsIPv6 (fe_Address fe)))\<lparr>sv_flags := svcFlags env fe k, sv_revNat := ucast feID\<rparr>"
    define bes where "bes = sortedBackends (fe_Backends fe)"
    define addrs where "addrs = backendAddrsOf bes"
    define d where "d = deleteOrphansOnUpdate env feID os ops0"
    have i0: "issues (deletesOnly os) ops ops0"
      by (simp add: issues_trace_eq ops0_def)
    have id: "issues (deletesOnly os) ops (fst d)"
      unfolding d_def
      by (rule issues_trans [OF i0], rule issues_deleteOrphansOnUpdate) (auto simp: deletesOnly_def)
    from assms acq Inr have body:
      "(case d of
          (ops1, Some err) \<Rightarrow> Some (ops1, Some err)
        | (ops1, None) \<Rightarrow>
            (case updateBackendsLoop env fe feID k v 0 bes ops1 of
               None \<Rightarrow> None
             | Some (ops2, Some err) \<Rightarrow> Some (ops2, Some err)
             | Some (ops2, None) \<Rightarrow> Some (finishUpdate env fe feID k v bes addrs ops2))) = Some (ops', e)"
      unfolding updateFrontend_def Let_def ops0_def k_def v_def bes_def addrs_def d_def os_def by simp
    show ?thesis
    proof (cases "snd d")
      case (Some err)
      with body have "ops' = fst d" by (auto split: prod.splits)
      with id show ?thesis by (simp add: os_def)
    next
      case None
      with body obtain ops2 e2 where lp: "updateBackendsLoop env fe feID k v 0 bes (fst d) = Some (ops2, e2)"
        by (auto split: prod.splits option.splits)
      have i2: "issues (deletesOnly os) ops ops2"
        by (rule issues_trans [OF id], rule issues_updateBackendsLoop [OF _ _ _ _ lp])
          (simp_all add: deletesOnly_def)
      show ?thesis
      proof (cases e2)
        case (Some err)
        with body None lp have "ops' = ops2" by (auto split: prod.splits)
        with i2 show ?thesis by (simp add: os_def)
      next
        case none2: None
        with body None lp have "ops' = fst (finishUpdate env fe feID k v bes addrs ops2)"
          by (auto split: prod.splits)
        moreover have "issues (deletesOnly os) ops2 (fst (finishUpdate env fe feID k v bes addrs ops2))"
          by (rule issues_finishUpdate) (simp_all add: deletesOnly_def)
        ultimately show ?thesis
          using issues_trans [OF i2] by (simp add: os_def)
      qed
    qed
  qed
qed

text \<open>
  \<open>orphanBackends fa newSet\<close> returns exactly the records of the addresses that are in
  the committed membership of \<open>fa\<close>, not in \<open>newSet\<close>, and have a stored reference count
  of at most 1; and whatever \<open>updateFrontend\<close> returns, every backend row it has deleted
  is the row of a record that \<open>orphanBackends\<close> returned for this frontend and its new
  backend set.
\<close>

lemma orphanBackends_exact:
  "set (orphanBackends ops fa newSet) =
     {s. \<exists>a \<in> set (refsOf (backendReferences ops) fa).
            a \<notin> set newSet \<and> backendStates ops a = Some s \<and> bs_refCount s \<le> 1} \<and>
   (\<forall>s \<in> set (orphanBackends ops fa newSet). \<not> bs_refCount s \<ge> 2) \<and>
   (\<forall>env fe ops' e.
      updateFrontend env fe ops = Some (ops', e) \<longrightarrow>
      (\<exists>l. trace ops' = trace ops @ l \<and>
           (\<forall>k. SilentDeleteBackend k \<in> set l \<longrightarrow>
              (\<exists>s \<in> set (orphanBackends ops (fe_Address fe) (backendAddrsOf (sortedBackends (fe_Backends fe)))).
                 k = \<lparr>bk_v6 = IsIPv6 (bs_addr s), bk_id = bs_id s\<rparr>))))"
proof (intro conjI allI impI)
  show "set (orphanBackends ops fa newSet) =
     {s. \<exists>a \<in> set (refsOf (backendReferences ops) fa).
            a \<notin> set newSet \<and> backendStates ops a = Some s \<and> bs_refCount s \<le> 1}"
    by (auto simp: orphanBackends_def refsOf_def orphanLoop_set split: option.splits)
  then show "\<forall>s \<in> set (orphanBackends ops fa newSet). \<not> bs_refCount s \<ge> 2"
    by auto
next
  fix env :: "'a env" and fe ops' e
  assume "updateFrontend env fe ops = Some (ops', e)"
  from updateFrontend_deletesOnly [OF this]
  show "\<exists>l. trace ops' = trace ops @ l \<and>
           (\<forall>k. SilentDeleteBackend k \<in> set l \<longrightarrow>
              (\<exists>s \<in> set (orphanBackends ops (fe_Address fe) (backendAddrsOf (sortedBackends (fe_Backends fe)))).
                 k = \<lparr>bk_v6 = IsIPv6 (bs_addr s), bk_id = bs_id s\<rparr>))"
    by (auto simp: issues_def deletesOnly_def list_all_iff)
qed

lemmas scenario_simps =
  updateAfter_def frontendX_def frontendY_def Update_def expandsPerNode_def okEnv_def


section \<open>Backends that compare equal\<close>

text \<open>
  C7. Two backends that agree on state, address and port and differ in the protocol, or
  in the cluster id, compare equal: \<open>sortedBackends\<close> returns them in the order they come
  in, so the order is not a function of the backend set. \<open>Update\<close> of a frontend with
  such a pair and then \<open>Update\<close> with the same pair in the other order writes slot 1 and
  slot 2 with the backend ids 1 and 2 the first time, 2 and 1 the second.
\<close>

theorem equal_backends_swap_slots:
  "sortedBackends [exampleBackend 1 53 ''TCP'' 0, exampleBackend 1 53 ''UDP'' 0] =
     [exampleBackend 1 53 ''TCP'' 0, exampleBackend 1 53 ''UDP'' 0] \<and>
   sortedBackends [exampleBackend 1 53 ''UDP'' 0, exampleBackend 1 53 ''TCP'' 0] =
     [exampleBackend 1 53 ''UDP'' 0, exampleBackend 1 53 ''TCP'' 0] \<and>
   sortedBackends [backendInCluster 1 1 80, backendInCluster 2 1 80] =
     [backendInCluster 1 1 80, backendInCluster 2 1 80] \<and>
   sortedBackends [backendInCluster 2 1 80, backendInCluster 1 1 80] =
     [backendInCluster 2 1 80, backendInCluster 1 1 80] \<and>
   map_option
     (\<lambda>(es, s, s', e).
        (es, map (\<lambda>op. case op of UpdateService k v \<Rightarrow> (sk_slot k, sv_backendID v))
               (filter isSlotWrite (trace s)),
         e, map (\<lambda>op. case op of UpdateService k v \<Rightarrow> (sk_slot k, sv_backendID v))
               (filter isSlotWrite (drop (length (trace s)) (trace s')))))
     (updateAfter
        [(okEnv, frontendX [exampleBackend 1 53 ''TCP'' 0, exampleBackend 1 53 ''UDP'' 0])]
        okEnv (frontendX [exampleBackend 1 53 ''UDP'' 0, exampleBackend 1 53 ''TCP'' 0]) (newBPFOps ()))
   = Some ([None], [(1, 1), (2, 2)], None, [(1, 2), (2, 1)])"
proof -
  have "sortedBackends [exampleBackend 1 53 ''TCP'' 0, exampleBackend 1 53 ''UDP'' 0] =
     [exampleBackend 1 53 ''TCP'' 0, exampleBackend 1 53 ''UDP'' 0] \<and>
   sortedBackends [exampleBackend 1 53 ''UDP'' 0, exampleBackend 1 53 ''TCP'' 0] =
     [exampleBackend 1 53 ''UDP'' 0, exampleBackend 1 53 ''TCP'' 0] \<and>
   sortedBackends [backendInCluster 1 1 80, backendInCluster 2 1 80] =
     [backendInCluster 1 1 80, backendInCluster 2 1 80] \<and>
   sortedBackends [backendInCluster 2 1 80, backendInCluster 1 1 80] =
     [backendInCluster 2 1 80, backendInCluster 1 1 80]"
    by (simp add: sortedBackends_def sort_Slice_def backend_less_def exampleBackend_def backendInCluster_def
        Compare_def AddrClusterFrom_def)
  moreover have "map_option
     (\<lambda>(es, s, s', e).
        (es, map (\<lambda>op. case op of UpdateService k v \<Rightarrow> (sk_slot k, sv_backendID v))
               (filter isSlotWrite (trace s)),
         e, map (\<lambda>op. case op of UpdateService k v \<Rightarrow> (sk_slot k, sv_backendID v))
               (filter isSlotWrite (drop (length (trace s)) (trace s')))))
     (updateAfter
        [(okEnv, frontendX [exampleBackend 1 53 ''TCP'' 0, exampleBackend 1 53 ''UDP'' 0])]
        okEnv (frontendX [exampleBackend 1 53 ''UDP'' 0, exampleBackend 1 53 ''TCP'' 0]) (newBPFOps ()))
   = Some ([None], [(1, 1), (2, 2)], None, [(1, 2), (2, 1)])"
    by (simp add: scenario_simps eval_simps cong: eval_congs)
  ultimately show ?thesis by (elim conjE, intro conjI) assumption+
qed

section \<open>Delete and the node addresses\<close>

lemmas delete_simps =
  deleteAfterUpdates_def nodePortV4_def nodePortV6_def Update_def Delete_def deleteFrontend_def
  expandsPerNode_def IsUnspecified_def withNodeAddr_def sortedInPlace_def set_New_def

text \<open>
  C10. After \<open>Update\<close> of the IPv6 and of the IPv4 frontend of a dual-stack NodePort
  service, \<open>Delete\<close> of the IPv4 frontend also deletes the service row and the reverse NAT
  row of the per-node entry of the IPv6 node address, and releases its id, although the
  IPv6 frontend was not deleted: the loop of \<open>Delete\<close> has no check of the family.
\<close>

theorem Delete_crosses_family:
  "map_option
     (\<lambda>(s, s', e).
        (drop (length (trace s)) (trace s'), e,
         lookupLocalID exampleStringID (serviceIDAlloc s) (tcp6 1 30000),
         lookupLocalID exampleStringID (serviceIDAlloc s') (tcp6 1 30000),
         lookupLocalID exampleStringID (serviceIDAlloc s') (tcp6 0 30000)))
     (deleteAfterUpdates okEnv [nodePortV6, nodePortV4] nodePortV4 (newBPFOps ()))
   = Some
      ([DeleteService \<lparr>sk_addr = IP4 0, sk_port = 30000, sk_proto = 0, sk_scope = 0, sk_slot = 0\<rparr>,
        DeleteRevNat \<lparr>rk_v6 = False, rk_key = 3\<rparr>,
        DeleteService \<lparr>sk_addr = IP4 10, sk_port = 30000, sk_proto = 0, sk_scope = 0, sk_slot = 0\<rparr>,
        DeleteRevNat \<lparr>rk_v6 = False, rk_key = 4\<rparr>,
        DeleteService \<lparr>sk_addr = IP6 1, sk_port = 30000, sk_proto = 0, sk_scope = 0, sk_slot = 0\<rparr>,
        DeleteRevNat \<lparr>rk_v6 = True, rk_key = 2\<rparr>],
       None, Inr 2, Inl ErrIDNotFound, Inr 1)"
  by (simp add: delete_simps okEnv_def eval_simps cong: eval_congs)

end
